theory Spec2Isabelle
  imports Complex_Main "HOL-Library.Char_ord" "HOL-Library.List_Lexorder"
begin

section \<open>Values, dictionaries and errors\<close>

text \<open>
  Decoded JSON values, as \<^verbatim>\<open>json.loads\<close> produces them. A Python \<^verbatim>\<open>dict\<close> keeps its keys
  unique and in insertion order, so it is an association list handled only through
  \<open>dict_set\<close> (assignment \<^verbatim>\<open>d[k] = v\<close>: replace in place, or append a new key) and
  \<open>dict_pop\<close>.
\<close>

datatype json =
    JNull
  | JBool bool
  | JInt int
  | JFloat real
  | JStr string
  | JArr "json list"
  | JObj "(string \<times> json) list"

type_synonym 'v dict = "(string \<times> 'v) list"

type_synonym json_record = "json dict"

fun dict_set :: "'v dict \<Rightarrow> string \<Rightarrow> 'v \<Rightarrow> 'v dict" where
  "dict_set [] k v = [(k, v)]"
| "dict_set ((k', v') # d) k v = (if k' = k then (k, v) # d else (k', v') # dict_set d k v)"

definition dict_has :: "'v dict \<Rightarrow> string \<Rightarrow> bool" where
  "dict_has d k = (k \<in> fst ` set d)"

definition dict_pop :: "'v dict \<Rightarrow> string \<Rightarrow> 'v dict" where
  "dict_pop d k = filter (\<lambda>kv. fst kv \<noteq> k) d"

text \<open>
  The exception classes of \<^verbatim>\<open>core/errors.py\<close> (\<^verbatim>\<open>WdspError\<close> and its two subclasses
  \<^verbatim>\<open>FetchError\<close> and \<^verbatim>\<open>ParseError\<close>), each carrying its message, and the exceptions of the
  libraries the code calls.
\<close>

datatype error =
    WdspError string
  | FetchError string
  | ParseError string
  | RequestException string
  | ValueError string
  | OtherException string

section \<open>Pagination engine (\<^verbatim>\<open>services/pagination.py\<close>)\<close>

datatype Pagination =
    PageParamPagination string int int
  | OffsetPagination string string int int int
  | CursorPagination string string int "string option"

text \<open>
  Constructor arguments, in order: \<^verbatim>\<open>PageParamPagination(param, start, end)\<close>,
  \<^verbatim>\<open>OffsetPagination(offset_param, limit_param, limit, max_pages, start_offset)\<close>,
  \<^verbatim>\<open>CursorPagination(cursor_param, cursor_field, max_pages, initial_cursor)\<close>.
\<close>

record PaginationRunResult =
  pages_fetched :: nat
  records_total :: nat
  stopped_reason :: string

text \<open>
  The engine mutates a dictionary that it shares by reference with the page-fetch callback,
  and it is handed another dictionary (\<^verbatim>\<open>base_params\<close>) by its caller. Dictionary objects
  therefore live in a store: \<open>cells\<close> maps an address to the current contents of the
  dictionary object there, \<open>next_addr\<close> is the first address not yet allocated, and \<open>world\<close>
  is whatever else the callbacks can read and change (network, closures of the caller).
  The values stored under the keys are immutable here; the engine never mutates a value, it
  only assigns and removes keys.
\<close>

record 'w machine =
  cells :: "nat \<Rightarrow> json dict"
  next_addr :: nat
  world :: 'w

text \<open>
  A callback is any state transformer that returns a value or raises. \<^verbatim>\<open>fetch_page\<close> is
  given the address of the parameter dictionary.
\<close>

type_synonym ('w, 'a) effect = "'w machine \<Rightarrow> (error + 'a) \<times> 'w machine"

type_synonym 'w outcome =
  "(error + (json_record list \<times> PaginationRunResult)) \<times> json dict list \<times> 'w machine"

text \<open>
  Every run returns, next to the source's result and the final state, the list of
  snapshots of the parameter dictionary taken at each invocation of \<^verbatim>\<open>fetch_page\<close>, oldest
  first: what each call was given.
\<close>

definition set_param :: "nat \<Rightarrow> string \<Rightarrow> json \<Rightarrow> 'w machine \<Rightarrow> 'w machine" where
  "set_param p k v s = s\<lparr>cells := (cells s)(p := dict_set (cells s p) k v)\<rparr>"

definition pop_param :: "nat \<Rightarrow> string \<Rightarrow> 'w machine \<Rightarrow> 'w machine" where
  "pop_param p k s = s\<lparr>cells := (cells s)(p := dict_pop (cells s p) k)\<rparr>"

definition finished :: "json_record list \<Rightarrow> nat \<Rightarrow> string \<Rightarrow> error + (json_record list \<times> PaginationRunResult)" where
  "finished all_records n reason =
     Inr (all_records, \<lparr>pages_fetched = n, records_total = length all_records, stopped_reason = reason\<rparr>)"

text \<open>\<^verbatim>\<open>for page in range(pagination.start, pagination.end + 1)\<close>\<close>

function page_param_loop ::
  "(nat \<Rightarrow> ('w, json_record list) effect) \<Rightarrow> nat \<Rightarrow> string \<Rightarrow> int \<Rightarrow> int \<Rightarrow>
   json_record list \<Rightarrow> nat \<Rightarrow> json dict list \<Rightarrow> 'w machine \<Rightarrow> 'w outcome" where
  "page_param_loop fetch_page p param page end_page all_records n calls s =
     (if page < end_page + 1 then
        (let s1 = set_param p param (JInt page) s;
             calls1 = calls @ [cells s1 p]
         in case fetch_page p s1 of
              (Inl exc, s2) \<Rightarrow> (Inl exc, calls1, s2)
            | (Inr records, s2) \<Rightarrow>
                if records = [] then (finished all_records (n + 1) ''empty_page'', calls1, s2)
                else page_param_loop fetch_page p param (page + 1) end_page
                       (all_records @ records) (n + 1) calls1 s2)
      else (finished all_records n ''end_reached'', calls, s))"
  by pat_completeness auto
termination
  by (relation "measure (\<lambda>(fetch_page, p, param, page, end_page, rest). nat (end_page + 1 - page))") auto

declare page_param_loop.simps [simp del]

text \<open>
  \<^verbatim>\<open>for _ in range(pagination.max_pages)\<close>: the first argument counts the iterations that
  remain.
\<close>

fun offset_loop ::
  "nat \<Rightarrow> (nat \<Rightarrow> ('w, json_record list) effect) \<Rightarrow> nat \<Rightarrow> string \<Rightarrow> string \<Rightarrow> int \<Rightarrow> int \<Rightarrow>
   json_record list \<Rightarrow> nat \<Rightarrow> json dict list \<Rightarrow> 'w machine \<Rightarrow> 'w outcome" where
  "offset_loop 0 fetch_page p offset_param limit_param limit offset all_records n calls s =
     (finished all_records n ''max_pages'', calls, s)"
| "offset_loop (Suc k) fetch_page p offset_param limit_param limit offset all_records n calls s =
     (let s1 = set_param p limit_param (JInt limit) (set_param p offset_param (JInt offset) s);
          calls1 = calls @ [cells s1 p]
      in case fetch_page p s1 of
           (Inl exc, s2) \<Rightarrow> (Inl exc, calls1, s2)
         | (Inr records, s2) \<Rightarrow>
             if records = [] then (finished all_records (n + 1) ''empty_page'', calls1, s2)
             else offset_loop k fetch_page p offset_param limit_param limit (offset + limit)
                    (all_records @ records) (n + 1) calls1 s2)"

text \<open>
  The head of a cursor iteration (\<^verbatim>\<open>if cursor is not None: ... elif cursor_param in params:
  params.pop(...)\<close>) and the optional call of \<^verbatim>\<open>cursor_setter\<close> at its end.
\<close>

definition place_cursor :: "nat \<Rightarrow> string \<Rightarrow> string option \<Rightarrow> 'w machine \<Rightarrow> 'w machine" where
  "place_cursor p cursor_param cursor s =
     (case cursor of
        Some c \<Rightarrow> set_param p cursor_param (JStr c) s
      | None \<Rightarrow> if dict_has (cells s p) cursor_param then pop_param p cursor_param s else s)"

definition forward_cursor ::
  "(string option \<Rightarrow> ('w, unit) effect) option \<Rightarrow> string option \<Rightarrow> ('w, unit) effect" where
  "forward_cursor cursor_setter cursor s =
     (case cursor_setter of
        None \<Rightarrow> (Inr (), s)
      | Some setter \<Rightarrow> setter cursor s)"

fun cursor_loop ::
  "nat \<Rightarrow> (nat \<Rightarrow> ('w, json_record list) effect) \<Rightarrow> ('w, string option) effect option \<Rightarrow>
   (string option \<Rightarrow> ('w, unit) effect) option \<Rightarrow> nat \<Rightarrow> string \<Rightarrow> string option \<Rightarrow>
   json_record list \<Rightarrow> nat \<Rightarrow> json dict list \<Rightarrow> 'w machine \<Rightarrow> 'w outcome" where
  "cursor_loop 0 fetch_page cursor_getter cursor_setter p cursor_param cursor all_records n calls s =
     (finished all_records n ''max_pages'', calls, s)"
| "cursor_loop (Suc k) fetch_page cursor_getter cursor_setter p cursor_param cursor all_records n calls s =
     (let s1 = place_cursor p cursor_param cursor s;
          calls1 = calls @ [cells s1 p]
      in case fetch_page p s1 of
           (Inl exc, s2) \<Rightarrow> (Inl exc, calls1, s2)
         | (Inr records, s2) \<Rightarrow>
             if records = [] then (finished all_records (n + 1) ''empty_page'', calls1, s2)
             else
               (case cursor_getter of
                  None \<Rightarrow> (finished (all_records @ records) (n + 1) ''missing_cursor_getter'', calls1, s2)
                | Some getter \<Rightarrow>
                    (case getter s2 of
                       (Inl exc, s3) \<Rightarrow> (Inl exc, calls1, s3)
                     | (Inr cursor', s3) \<Rightarrow>
                         (case forward_cursor cursor_setter cursor' s3 of
                            (Inl exc, s4) \<Rightarrow> (Inl exc, calls1, s4)
                          | (Inr u, s4) \<Rightarrow>
                              if cursor' = None
                              then (finished (all_records @ records) (n + 1) ''cursor_missing'', calls1, s4)
                              else cursor_loop k fetch_page cursor_getter cursor_setter p cursor_param
                                     cursor' (all_records @ records) (n + 1) calls1 s4))))"

text \<open>
  \<^verbatim>\<open>params = dict(base_params or {})\<close>: a new dictionary object, at a fresh address, holding
  the entries of \<^verbatim>\<open>base_params\<close> when that is given and not empty.
\<close>

definition copy_base_params :: "nat option \<Rightarrow> 'w machine \<Rightarrow> nat \<times> 'w machine" where
  "copy_base_params base_params s =
     (let src = (case base_params of
                   None \<Rightarrow> []
                 | Some b \<Rightarrow> if cells s b = [] then [] else cells s b);
          p = next_addr s
      in (p, s\<lparr>cells := (cells s)(p := src), next_addr := Suc p\<rparr>))"

text \<open>
  The three \<^verbatim>\<open>isinstance\<close> branches; the final \<^verbatim>\<open>raise ValueError\<close> of the source is
  reached by no value of the \<open>Pagination\<close> union.
\<close>

fun run_pagination ::
  "Pagination \<Rightarrow> (nat \<Rightarrow> ('w, json_record list) effect) \<Rightarrow> nat option \<Rightarrow>
   ('w, string option) effect option \<Rightarrow> (string option \<Rightarrow> ('w, unit) effect) option \<Rightarrow>
   'w machine \<Rightarrow> 'w outcome" where
  "run_pagination (PageParamPagination param start end_page) fetch_page base_params cursor_getter cursor_setter s =
     (case copy_base_params base_params s of
        (p, s0) \<Rightarrow> page_param_loop fetch_page p param start end_page [] 0 [] s0)"
| "run_pagination (OffsetPagination offset_param limit_param limit max_pages start_offset)
     fetch_page base_params cursor_getter cursor_setter s =
     (case copy_base_params base_params s of
        (p, s0) \<Rightarrow> offset_loop (nat max_pages) fetch_page p offset_param limit_param limit start_offset
                     [] 0 [] s0)"
| "run_pagination (CursorPagination cursor_param cursor_field max_pages initial_cursor)
     fetch_page base_params cursor_getter cursor_setter s =
     (case copy_base_params base_params s of
        (p, s0) \<Rightarrow> cursor_loop (nat max_pages) fetch_page cursor_getter cursor_setter p cursor_param
                     initial_cursor [] 0 [] s0)"


section \<open>Strings\<close>

text \<open>
  \<^verbatim>\<open>str(n)\<close> for integers, \<^verbatim>\<open>s.startswith(p)\<close>, and \<^verbatim>\<open>s.replace(old, new)\<close>: every
  non-overlapping occurrence of \<open>old\<close>, scanning from the left; an empty \<open>old\<close> matches
  before every character and at the end.
\<close>

definition digit_char :: "nat \<Rightarrow> char" where
  "digit_char d = ''0123456789'' ! d"

function str_of_nat :: "nat \<Rightarrow> string" where
  "str_of_nat n = (if n < 10 then [digit_char n] else str_of_nat (n div 10) @ [digit_char (n mod 10)])"
  by pat_completeness auto
termination
  by (relation "measure id") auto

declare str_of_nat.simps [simp del]

definition str_of_int :: "int \<Rightarrow> string" where
  "str_of_int i = (if i < 0 then CHR ''-'' # str_of_nat (nat (- i)) else str_of_nat (nat i))"

definition startswith :: "string \<Rightarrow> string \<Rightarrow> bool" where
  "startswith s p = (take (length p) s = p)"

function str_replace :: "string \<Rightarrow> string \<Rightarrow> string \<Rightarrow> string" where
  "str_replace [] old new = (if old = [] then new else [])"
| "str_replace (c # cs) old new =
     (if old = [] then new @ c # str_replace cs old new
      else if startswith (c # cs) old then new @ str_replace (drop (length old) (c # cs)) old new
      else c # str_replace cs old new)"
  by pat_completeness auto
termination
  by (relation "measure (\<lambda>(s, old, new). length s)") auto

section \<open>Identifier injection (\<^verbatim>\<open>_inject_identifier\<close> in \<^verbatim>\<open>api/analyze.py\<close>)\<close>

text \<open>
  The function works on deep copies of \<^verbatim>\<open>params\<close> and \<^verbatim>\<open>body\<close> and returns them; here the
  inputs are values, and the results are the new values. \<^verbatim>\<open>if new_body:\<close> is false for
  \<^verbatim>\<open>None\<close> and for the empty dictionary.
\<close>

definition inject_identifier ::
  "string \<Rightarrow> string \<Rightarrow> string \<Rightarrow> json dict \<Rightarrow> json dict option \<Rightarrow>
   string \<times> json dict \<times> json dict option" where
  "inject_identifier identifier var_name url params body =
     (let new_url = str_replace url (''{'' @ var_name @ ''}'') identifier;
          new_params = (if dict_has params var_name
                        then dict_set params var_name (JStr identifier) else params);
          new_body =
            (case body of
               None \<Rightarrow> None
             | Some b \<Rightarrow>
                 if b \<noteq> [] then
                   (let b1 = (if dict_has b var_name
                              then dict_set b var_name (JStr identifier) else b);
                        b2 = (case map_of b1 ''variables'' of
                                Some (JObj variables) \<Rightarrow>
                                  if dict_has variables var_name
                                  then dict_set b1 ''variables''
                                         (JObj (dict_set variables var_name (JStr identifier)))
                                  else b1
                              | _ \<Rightarrow> b1)
                    in Some b2)
                 else Some b)
      in (new_url, new_params, new_body))"

section \<open>SSRF guard (\<^verbatim>\<open>services/url_safety.py\<close>)\<close>

text \<open>
  Three library calls are parameters of the guard: \<^verbatim>\<open>urlparse\<close> (which returns a parse
  result, of which the code reads \<^verbatim>\<open>scheme\<close> and \<^verbatim>\<open>hostname\<close>, or raises \<^verbatim>\<open>ValueError\<close> on
  a malformed URL such as \<^verbatim>\<open>http://[::1\<close>; the guard calls it outside any \<^verbatim>\<open>try\<close>, so the
  exception propagates), \<^verbatim>\<open>socket.getaddrinfo\<close> (which returns address entries or raises)
  and \<^verbatim>\<open>ipaddress.ip_address\<close> (which returns an address object, or raises \<^verbatim>\<open>ValueError\<close>:
  \<open>None\<close>), of which the code reads five flags and the version.
\<close>

record parsed_url =
  scheme :: string
  hostname :: "string option"

datatype address_family = AF_INET | AF_INET6 | AF_OTHER

record ip_obj =
  is_loopback :: bool
  is_private :: bool
  is_link_local :: bool
  is_multicast :: bool
  is_reserved :: bool
  version :: nat

text \<open>
  What \<^verbatim>\<open>getaddrinfo\<close> does: it returns entries (family and the address text
  \<^verbatim>\<open>sockaddr[0]\<close>), raises \<^verbatim>\<open>socket.gaierror\<close>, which the guard catches, or raises something
  else, which it does not.
\<close>

datatype dns_answer =
    Resolved "(address_family \<times> string) list"
  | GaiError string
  | DnsRaised error

definition PRIVATE_IP_PREFIXES :: "string list" where
  "PRIVATE_IP_PREFIXES = [''127.'', ''10.'', ''192.168.'']"

definition is_private_or_local :: "(string \<Rightarrow> ip_obj option) \<Rightarrow> string \<Rightarrow> bool" where
  "is_private_or_local ip_address ip =
     (case ip_address ip of
        None \<Rightarrow> True
      | Some obj \<Rightarrow>
          if is_loopback obj \<or> is_private obj \<or> is_link_local obj \<or> is_multicast obj \<or> is_reserved obj
          then True
          else if version obj = 4 \<and> list_ex (startswith ip) PRIVATE_IP_PREFIXES then True
          else False)"

definition validate_public_http_url ::
  "(string \<Rightarrow> error + parsed_url) \<Rightarrow> string \<Rightarrow> error + unit" where
  "validate_public_http_url urlparse url =
     (case urlparse url of
        Inl exc \<Rightarrow> Inl exc
      | Inr parsed \<Rightarrow>
          if scheme parsed \<noteq> ''http'' \<and> scheme parsed \<noteq> ''https''
          then Inl (FetchError ''Only http/https URLs are allowed'')
          else (case hostname parsed of
                  None \<Rightarrow> Inl (FetchError ''Invalid URL: missing host'')
                | Some host \<Rightarrow>
                    if host = [] then Inl (FetchError ''Invalid URL: missing host'')
                    else if host = ''localhost'' then Inl (FetchError ''Blocked host: localhost'')
                    else Inr ()))"

definition quoted :: "string \<Rightarrow> string" where
  "quoted s = CHR 0x27 # s @ [CHR 0x27]"

definition collect_ips :: "(address_family \<times> string) list \<Rightarrow> string list" where
  "collect_ips infos =
     concat (map (\<lambda>(family, addr). if family = AF_INET then [addr]
                                     else if family = AF_INET6 then [addr] else []) infos)"

definition check_resolved ::
  "(string \<Rightarrow> dns_answer) \<Rightarrow> (string \<Rightarrow> ip_obj option) \<Rightarrow> string \<Rightarrow> error + unit" where
  "check_resolved getaddrinfo ip_address host =
     (case getaddrinfo host of
        GaiError exc \<Rightarrow>
          Inl (FetchError (''DNS resolution failed for host '' @ quoted host @ '': '' @ exc))
      | DnsRaised exc \<Rightarrow> Inl exc
      | Resolved infos \<Rightarrow>
          (let ips = collect_ips infos
           in if ips = []
              then Inl (FetchError (''No IP addresses resolved for host '' @ quoted host))
              else if list_ex (is_private_or_local ip_address) ips
              then Inl (FetchError (''Blocked host '' @ quoted host @
                                    '' (resolves to private/internal IP)''))
              else Inr ()))"

text \<open>
  \<^verbatim>\<open>resolve_and_block_private_hosts\<close>: the validation, a second \<^verbatim>\<open>urlparse(url).hostname\<close>
  with its own test for a missing host, then the lookup and the test of the addresses
  (\<open>check_resolved\<close>, the part of the function from \<^verbatim>\<open>socket.getaddrinfo\<close> on).
\<close>

definition resolve_and_block_private_hosts ::
  "(string \<Rightarrow> error + parsed_url) \<Rightarrow> (string \<Rightarrow> dns_answer) \<Rightarrow> (string \<Rightarrow> ip_obj option) \<Rightarrow>
   string \<Rightarrow> error + unit" where
  "resolve_and_block_private_hosts urlparse getaddrinfo ip_address url =
     (case validate_public_http_url urlparse url of
        Inl exc \<Rightarrow> Inl exc
      | Inr u \<Rightarrow>
          (case urlparse url of
             Inl exc \<Rightarrow> Inl exc
           | Inr parsed \<Rightarrow>
               (case hostname parsed of
                  None \<Rightarrow> Inl (FetchError ''Invalid URL: missing host'')
                | Some host \<Rightarrow>
                    if host = [] then Inl (FetchError ''Invalid URL: missing host'')
                    else check_resolved getaddrinfo ip_address host)))"

section \<open>HTTP fetch layer (\<^verbatim>\<open>services/http_client.py\<close>)\<close>

text \<open>
  The settings the fetch layer reads from \<^verbatim>\<open>core/config.py\<close>, the request handed to
  \<^verbatim>\<open>requests.get\<close> or \<^verbatim>\<open>requests.post\<close>, the fields of the library's response that the
  code reads, and the \<^verbatim>\<open>FetchResult\<close> dataclass.
\<close>

record settings =
  http_connect_timeout_s :: real
  http_read_timeout_s :: real
  http_max_bytes :: int
  block_private_networks :: bool

record http_request =
  req_url :: string
  req_headers :: "string dict"
  req_params :: "json dict option"
  req_json :: "json dict option"
  req_timeout :: "real \<times> real"

record http_response =
  resp_url :: string
  resp_status_code :: int
  resp_headers :: "(string \<times> string) list"
  resp_content :: "string option"

record FetchResult =
  fr_url :: string
  fr_status_code :: int
  fr_headers :: "string dict"
  fr_content :: string

text \<open>
  The libraries and the clock, as the fetch layer uses them. A library call on the network
  changes the outside world \<open>'w\<close> and returns a response or raises; \<^verbatim>\<open>time.sleep\<close> only
  changes the world.
\<close>

record 'w runtime =
  lib_urlparse :: "string \<Rightarrow> error + parsed_url"
  lib_getaddrinfo :: "string \<Rightarrow> dns_answer"
  lib_ip_address :: "string \<Rightarrow> ip_obj option"
  lib_requests_get :: "http_request \<Rightarrow> 'w \<Rightarrow> (error + http_response) \<times> 'w"
  lib_requests_post :: "http_request \<Rightarrow> 'w \<Rightarrow> (error + http_response) \<times> 'w"
  lib_sleep :: "nat \<Rightarrow> 'w \<Rightarrow> 'w"

definition DEFAULT_UA :: string where
  "DEFAULT_UA = ''Mozilla/5.0 (Windows NT 10.0; Win64; x64) '' @
                ''AppleWebKit/537.36 (KHTML, like Gecko) '' @
                ''Chrome/120.0.0.0 Safari/537.36''"

definition dict_update :: "'v dict \<Rightarrow> 'v dict \<Rightarrow> 'v dict" where
  "dict_update d extra = foldl (\<lambda>acc (k, v). dict_set acc k v) d extra"

fun str_join :: "string \<Rightarrow> string list \<Rightarrow> string" where
  "str_join sep [] = []"
| "str_join sep [x] = x"
| "str_join sep (x # y # ys) = x @ sep @ str_join sep (y # ys)"

definition merged_headers :: "string dict option \<Rightarrow> string dict" where
  "merged_headers extra =
     (let merged = [(''User-Agent'', DEFAULT_UA)]
      in case extra of
           None \<Rightarrow> merged
         | Some e \<Rightarrow> if e \<noteq> [] then dict_update merged e else merged)"

definition build_cookie_header :: "string dict option \<Rightarrow> string option" where
  "build_cookie_header cookies =
     (case cookies of
        None \<Rightarrow> None
      | Some c \<Rightarrow> if c = [] then None
                  else Some (str_join ''; '' (map (\<lambda>(k, v). k @ ''='' @ v) c)))"

definition with_cookie :: "string dict \<Rightarrow> string dict option \<Rightarrow> string dict" where
  "with_cookie merged cookies =
     (case build_cookie_header cookies of
        None \<Rightarrow> merged
      | Some cookie_header \<Rightarrow>
          if cookie_header \<noteq> [] then dict_set merged ''Cookie'' cookie_header else merged)"

definition response_body :: "http_response \<Rightarrow> string" where
  "response_body resp = (case resp_content resp of None \<Rightarrow> [] | Some c \<Rightarrow> c)"

definition fetch_result_of :: "http_response \<Rightarrow> FetchResult" where
  "fetch_result_of resp =
     \<lparr>fr_url = resp_url resp,
      fr_status_code = resp_status_code resp,
      fr_headers = dict_update [] (resp_headers resp),
      fr_content = response_body resp\<rparr>"

text \<open>
  The retry loop \<^verbatim>\<open>for attempt in range(max_retries + 1)\<close>, which \<^verbatim>\<open>get_bytes\<close> and
  \<^verbatim>\<open>post_bytes\<close> both contain; they differ in the library call \<open>send\<close> and in one word of the
  messages (\<^verbatim>\<open>fetch\<close>, \<^verbatim>\<open>POST\<close>). The \<^verbatim>\<open>except\<close> clause catches
  \<^verbatim>\<open>requests.RequestException\<close> only: the \<^verbatim>\<open>FetchError\<close> raised for an oversized body and any
  other exception of the call leave the loop. The statement after the loop is reached when
  the range is empty, with \<^verbatim>\<open>last_error\<close> still \<^verbatim>\<open>None\<close>.
\<close>

definition is_request_exception :: "error \<Rightarrow> bool" where
  "is_request_exception exc = (case exc of RequestException m \<Rightarrow> True | _ \<Rightarrow> False)"

function attempts ::
  "settings \<Rightarrow> (http_request \<Rightarrow> 'w \<Rightarrow> (error + http_response) \<times> 'w) \<Rightarrow> (nat \<Rightarrow> 'w \<Rightarrow> 'w) \<Rightarrow>
   string \<Rightarrow> http_request \<Rightarrow> int \<Rightarrow> int \<Rightarrow> 'w \<Rightarrow> (error + FetchResult) \<times> 'w" where
  "attempts cfg send pause verb req max_retries attempt w =
     (if attempt < max_retries + 1 then
        (case send req w of
           (Inr resp, w1) \<Rightarrow>
             if int (length (response_body resp)) > http_max_bytes cfg
             then (Inl (FetchError (''Response too large (>'' @ str_of_int (http_max_bytes cfg) @
                                    '' bytes)'')), w1)
             else (Inr (fetch_result_of resp), w1)
         | (Inl (RequestException exc), w1) \<Rightarrow>
             if attempt < max_retries
             then attempts cfg send pause verb req max_retries (attempt + 1) (pause 1 w1)
             else (Inl (FetchError (''Failed to '' @ verb @ '' URL after '' @
                                    str_of_int (max_retries + 1) @ '' attempts: '' @ exc)), w1)
         | (Inl exc, w1) \<Rightarrow> (Inl exc, w1))
      else (Inl (FetchError (''Failed to '' @ verb @ '' URL: None'')), w))"
  by pat_completeness auto
termination
  by (relation "measure (\<lambda>(cfg, send, pause, verb, req, max_retries, attempt, w).
                           nat (max_retries + 1 - attempt))") auto

declare attempts.simps [simp del]

definition guard :: "settings \<Rightarrow> 'w runtime \<Rightarrow> string \<Rightarrow> error + unit" where
  "guard cfg rt url =
     (if block_private_networks cfg
      then resolve_and_block_private_hosts (lib_urlparse rt) (lib_getaddrinfo rt) (lib_ip_address rt) url
      else Inr ())"

definition get_request ::
  "settings \<Rightarrow> string \<Rightarrow> string dict option \<Rightarrow> json dict option \<Rightarrow> string dict option \<Rightarrow>
   http_request" where
  "get_request cfg url headers params cookies =
     \<lparr>req_url = url,
      req_headers = with_cookie (merged_headers headers) cookies,
      req_params = params,
      req_json = None,
      req_timeout = (http_connect_timeout_s cfg, http_read_timeout_s cfg)\<rparr>"

definition post_request ::
  "settings \<Rightarrow> string \<Rightarrow> string dict option \<Rightarrow> json dict option \<Rightarrow> string dict option \<Rightarrow>
   http_request" where
  "post_request cfg url headers body cookies =
     (let merged = merged_headers headers;
          merged1 = (if body \<noteq> None \<and> \<not> dict_has merged ''Content-Type''
                     then dict_set merged ''Content-Type'' ''application/json'' else merged)
      in \<lparr>req_url = url,
          req_headers = with_cookie merged1 cookies,
          req_params = None,
          req_json = body,
          req_timeout = (http_connect_timeout_s cfg, http_read_timeout_s cfg)\<rparr>)"

definition get_bytes ::
  "settings \<Rightarrow> 'w runtime \<Rightarrow> string \<Rightarrow> string dict option \<Rightarrow> json dict option \<Rightarrow>
   string dict option \<Rightarrow> int \<Rightarrow> 'w \<Rightarrow> (error + FetchResult) \<times> 'w" where
  "get_bytes cfg rt url headers params cookies max_retries w =
     (case guard cfg rt url of
        Inl exc \<Rightarrow> (Inl exc, w)
      | Inr u \<Rightarrow> attempts cfg (lib_requests_get rt) (lib_sleep rt) ''fetch''
                   (get_request cfg url headers params cookies) max_retries 0 w)"

definition post_bytes ::
  "settings \<Rightarrow> 'w runtime \<Rightarrow> string \<Rightarrow> string dict option \<Rightarrow> json dict option \<Rightarrow>
   string dict option \<Rightarrow> int \<Rightarrow> 'w \<Rightarrow> (error + FetchResult) \<times> 'w" where
  "post_bytes cfg rt url headers body cookies max_retries w =
     (case guard cfg rt url of
        Inl exc \<Rightarrow> (Inl exc, w)
      | Inr u \<Rightarrow> attempts cfg (lib_requests_post rt) (lib_sleep rt) ''POST''
                   (post_request cfg url headers body cookies) max_retries 0 w)"

section \<open>JSON record extraction (\<^verbatim>\<open>services/json_extract.py\<close>)\<close>

text \<open>
  The dataclass \<^verbatim>\<open>JsonRecordsResult\<close>, the two type tests, and the elements of an array.
\<close>

record JsonRecordsResult =
  jr_records :: "json list"
  jr_path :: string

definition is_record :: "json \<Rightarrow> bool" where
  "is_record obj = (case obj of JObj kvs \<Rightarrow> True | _ \<Rightarrow> False)"

definition is_list_of_records :: "json \<Rightarrow> bool" where
  "is_list_of_records obj = (case obj of JArr xs \<Rightarrow> xs \<noteq> [] \<and> list_all is_record xs | _ \<Rightarrow> False)"

definition elements :: "json \<Rightarrow> json list" where
  "elements obj = (case obj of JArr xs \<Rightarrow> xs | _ \<Rightarrow> [])"

text \<open>
  \<^verbatim>\<open>if best is None or len(candidate.records) > len(best.records): best = candidate\<close>
\<close>

definition better :: "JsonRecordsResult option \<Rightarrow> JsonRecordsResult \<Rightarrow> JsonRecordsResult option" where
  "better best candidate =
     (case best of
        None \<Rightarrow> Some candidate
      | Some b \<Rightarrow> if length (jr_records candidate) > length (jr_records b) then Some candidate else best)"

text \<open>
  What the loop appends to the queue for a node it expands: the values of a dictionary with
  path \<^verbatim>\<open>path.key\<close>, in key order, or the first 50 elements of an array with path
  \<^verbatim>\<open>path[idx]\<close>; nothing for a scalar.
\<close>

definition children :: "json \<Rightarrow> string \<Rightarrow> (json \<times> string) list" where
  "children node path =
     (case node of
        JObj kvs \<Rightarrow> map (\<lambda>(k, v). (v, path @ ''.'' @ k)) kvs
      | JArr xs \<Rightarrow> map (\<lambda>(idx, v). (v, path @ ''['' @ str_of_nat idx @ '']'')) (enumerate 0 (take 50 xs))
      | _ \<Rightarrow> [])"

text \<open>
  \<^verbatim>\<open>while queue and visited < 500\<close>: the head of the queue is taken (\<^verbatim>\<open>popleft\<close>); a node
  that is a list of records is compared with \<open>best\<close> and, by the \<^verbatim>\<open>continue\<close>, not expanded;
  any other node is expanded.
\<close>

function bfs_loop ::
  "(json \<times> string) list \<Rightarrow> nat \<Rightarrow> JsonRecordsResult option \<Rightarrow> JsonRecordsResult option" where
  "bfs_loop [] visited best = best"
| "bfs_loop ((node, path) # queue) visited best =
     (if visited < 500 then
        if is_list_of_records node
        then bfs_loop queue (visited + 1)
               (better best \<lparr>jr_records = elements node, jr_path = path\<rparr>)
        else bfs_loop (queue @ children node path) (visited + 1) best
      else best)"
  by pat_completeness auto
termination
  by (relation "measure (\<lambda>(queue, visited, best). 500 - visited)") auto

declare bfs_loop.simps [simp del]

text \<open>
  \<^verbatim>\<open>if best:\<close> holds for every dataclass instance, so the fallback to the root object as a
  single record is taken only when the search found nothing.
\<close>

definition extract_records_from_json :: "json \<Rightarrow> JsonRecordsResult option" where
  "extract_records_from_json payload =
     (if is_list_of_records payload then Some \<lparr>jr_records = elements payload, jr_path = ''$''\<rparr>
      else
        (case payload of
           JObj kvs \<Rightarrow>
             (case bfs_loop [(payload, ''$'')] 0 None of
                Some best \<Rightarrow> Some best
              | None \<Rightarrow> if kvs \<noteq> [] then Some \<lparr>jr_records = [payload], jr_path = ''$''\<rparr> else None)
         | JArr xs \<Rightarrow> bfs_loop [(payload, ''$'')] 0 None
         | _ \<Rightarrow> None))"

text \<open>
  The nodes that \<open>bfs_loop\<close> takes from the queue, in the order it takes them: the same
  queue discipline, without the comparison.
\<close>

function visited_nodes :: "(json \<times> string) list \<Rightarrow> nat \<Rightarrow> (json \<times> string) list" where
  "visited_nodes [] visited = []"
| "visited_nodes ((node, path) # queue) visited =
     (if visited < 500 then
        (node, path) #
          (if is_list_of_records node then visited_nodes queue (visited + 1)
           else visited_nodes (queue @ children node path) (visited + 1))
      else [])"
  by pat_completeness auto
termination
  by (relation "measure (\<lambda>(queue, visited). 500 - visited)") auto

declare visited_nodes.simps [simp del]

text \<open>
  The traversal in the words of the spec (for comparison with the code's): a breadth-first
  visit in which every dictionary is expanded over all its keys and every array over its
  first 50 elements, capped at 500 visited nodes.
\<close>

function spec_visited_nodes :: "(json \<times> string) list \<Rightarrow> nat \<Rightarrow> (json \<times> string) list" where
  "spec_visited_nodes [] visited = []"
| "spec_visited_nodes ((node, path) # queue) visited =
     (if visited < 500
      then (node, path) # spec_visited_nodes (queue @ children node path) (visited + 1)
      else [])"
  by pat_completeness auto
termination
  by (relation "measure (\<lambda>(queue, visited). 500 - visited)") auto

declare spec_visited_nodes.simps [simp del]

text \<open>
  The lists of records among visited nodes, in visiting order; and ``\<open>b\<close> is the first
  longest of \<open>cands\<close>'': it occurs there, everything before it is strictly shorter and
  nothing after it is longer.
\<close>

definition candidates_of :: "(json \<times> string) list \<Rightarrow> JsonRecordsResult list" where
  "candidates_of nodes =
     map (\<lambda>(node, path). \<lparr>jr_records = elements node, jr_path = path\<rparr>)
       (filter (\<lambda>(node, path). is_list_of_records node) nodes)"

definition first_longest :: "JsonRecordsResult list \<Rightarrow> JsonRecordsResult \<Rightarrow> bool" where
  "first_longest cands b =
     (\<exists>before after. cands = before @ b # after \<and>
        (\<forall>c \<in> set before. length (jr_records c) < length (jr_records b)) \<and>
        (\<forall>c \<in> set after. length (jr_records c) \<le> length (jr_records b)))"

section \<open>Field matcher (\<^verbatim>\<open>services/field_filter.py\<close>)\<close>

text \<open>
  Field names are sequences of 8-bit characters. \<^verbatim>\<open>name.lower()\<close> followed by
  \<^verbatim>\<open>re.sub(r"[^a-z0-9]", "", name)\<close>: among such characters only \<^verbatim>\<open>A\<close> to \<^verbatim>\<open>Z\<close> are
  lowered to characters that the pattern keeps.
\<close>

definition lower_char :: "char \<Rightarrow> char" where
  "lower_char c =
     (case map_of (zip ''ABCDEFGHIJKLMNOPQRSTUVWXYZ'' ''abcdefghijklmnopqrstuvwxyz'') c of
        Some l \<Rightarrow> l
      | None \<Rightarrow> c)"

definition normalize_field_name :: "string \<Rightarrow> string" where
  "normalize_field_name name =
     filter (\<lambda>c. c \<in> set ''abcdefghijklmnopqrstuvwxyz0123456789'') (map lower_char name)"

text \<open>\<^verbatim>\<open>a in b\<close> for strings: \<open>a\<close> occurs in \<open>b\<close> as a contiguous piece.\<close>

fun str_in :: "string \<Rightarrow> string \<Rightarrow> bool" where
  "str_in a [] = (a = [])"
| "str_in a (c # cs) = (startswith (c # cs) a \<or> str_in a cs)"

record FieldMatchResult =
  matched_fields :: "string dict"
  unmatched_requested :: "string list"
  all_available_fields :: "string list"

text \<open>
  \<^verbatim>\<open>sorted(all_fields)\<close>, the distinct keys of all records in the order of their code
  points.
\<close>

definition all_fields_list :: "json_record list \<Rightarrow> string list" where
  "all_fields_list records = sort (remdups (concat (map (map fst) records)))"

text \<open>
  One step of the loop that fills \<^verbatim>\<open>normalized_to_actual\<close>: a later field replaces the
  entry of its normalized form only when it is strictly shorter; the entry keeps its place
  in the dictionary.
\<close>

definition add_field :: "string dict \<Rightarrow> string \<Rightarrow> string dict" where
  "add_field normalized_to_actual field =
     (let normed = normalize_field_name field
      in case map_of normalized_to_actual normed of
           None \<Rightarrow> dict_set normalized_to_actual normed field
         | Some current \<Rightarrow>
             if length field < length current then dict_set normalized_to_actual normed field
             else normalized_to_actual)"

definition build_normalized_to_actual :: "string list \<Rightarrow> string dict" where
  "build_normalized_to_actual field_names = foldl add_field [] field_names"

text \<open>
  The body of the loop over the requested fields decides one of three things for a
  request: it is skipped (\<^verbatim>\<open>continue\<close>), matched to an actual field, or unmatched. The partial
  match iterates over \<^verbatim>\<open>normalized_to_actual.items()\<close> and stops at the first hit.
\<close>

datatype match_outcome = Skipped | Matched string | Unmatched

definition partial_match :: "string \<Rightarrow> string \<Rightarrow> bool" where
  "partial_match req_norm normed = (str_in req_norm normed \<or> str_in normed req_norm)"

definition match_one :: "string dict \<Rightarrow> string \<Rightarrow> match_outcome" where
  "match_one normalized_to_actual req =
     (let req_norm = normalize_field_name req
      in if req_norm = [] then Skipped
         else (case map_of normalized_to_actual req_norm of
                 Some actual \<Rightarrow> Matched actual
               | None \<Rightarrow>
                   (case find (\<lambda>(normed, actual). partial_match req_norm normed) normalized_to_actual of
                      Some (normed, actual) \<Rightarrow> Matched actual
                    | None \<Rightarrow> Unmatched)))"

fun match_loop :: "string dict \<Rightarrow> string list \<Rightarrow> string dict \<Rightarrow> string list \<Rightarrow> string dict \<times> string list" where
  "match_loop normalized_to_actual [] matched unmatched = (matched, unmatched)"
| "match_loop normalized_to_actual (req # reqs) matched unmatched =
     (case match_one normalized_to_actual req of
        Skipped \<Rightarrow> match_loop normalized_to_actual reqs matched unmatched
      | Matched actual \<Rightarrow> match_loop normalized_to_actual reqs (dict_set matched req actual) unmatched
      | Unmatched \<Rightarrow> match_loop normalized_to_actual reqs matched (unmatched @ [req]))"

definition match_requested_fields :: "json_record list \<Rightarrow> string list \<Rightarrow> FieldMatchResult" where
  "match_requested_fields records requested_fields =
     (if records = []
      then \<lparr>matched_fields = [], unmatched_requested = requested_fields, all_available_fields = []\<rparr>
      else
        (let all_fields = all_fields_list records;
             normalized_to_actual = build_normalized_to_actual all_fields
         in case match_loop normalized_to_actual requested_fields [] [] of
              (matched, unmatched) \<Rightarrow>
                \<lparr>matched_fields = matched, unmatched_requested = unmatched,
                 all_available_fields = all_fields\<rparr>))"

text \<open>
  The partial match in the words of the spec (for comparison with the code's): the first
  of the given names, in alphabetical order, whose normalized form contains the request's
  normalized form or is contained in it.
\<close>

definition spec_first_containing :: "string list \<Rightarrow> string \<Rightarrow> string option" where
  "spec_first_containing names req =
     find (\<lambda>f. partial_match (normalize_field_name req) (normalize_field_name f)) (sort names)"

text \<open>
  What the code's dictionary amounts to. \<open>shortest_first\<close> is the shortest name of a list,
  the earliest of them when several are equally short; \<open>representative names n\<close> is that
  name among the names whose normalized form is \<open>n\<close>; \<open>expected_match\<close> decides a request
  from the sorted list of field names alone: skipped when its normalized form is empty; else
  the representative of its normalized form, when a field has that form; else the
  representative of the normalized form of the first field, in list order, that matches
  partially; else unmatched. \<open>keep_first\<close> removes repetitions from a list, keeping first
  occurrences.
\<close>

fun shortest_first :: "string list \<Rightarrow> string option" where
  "shortest_first [] = None"
| "shortest_first (f # fs) =
     (case shortest_first fs of
        None \<Rightarrow> Some f
      | Some g \<Rightarrow> if length g < length f then Some g else Some f)"

definition representative :: "string list \<Rightarrow> string \<Rightarrow> string option" where
  "representative names normed =
     shortest_first (filter (\<lambda>f. normalize_field_name f = normed) names)"

definition expected_match :: "string list \<Rightarrow> string \<Rightarrow> match_outcome" where
  "expected_match names req =
     (let req_norm = normalize_field_name req
      in if req_norm = [] then Skipped
         else (case representative names req_norm of
                 Some r \<Rightarrow> Matched r
               | None \<Rightarrow>
                   (case find (\<lambda>f. partial_match req_norm (normalize_field_name f)) names of
                      Some f \<Rightarrow>
                        (case representative names (normalize_field_name f) of
                           Some r \<Rightarrow> Matched r
                         | None \<Rightarrow> Unmatched)
                    | None \<Rightarrow> Unmatched)))"

definition keep_first :: "'a list \<Rightarrow> 'a list" where
  "keep_first xs = rev (remdups (rev xs))"

section \<open>HTML record extraction (\<^verbatim>\<open>services/html_extract.py\<close>)\<close>

text \<open>
  The extractor works on a document parsed by BeautifulSoup. The library is a parameter: a
  record of the calls the code makes, over an abstract type of documents and of elements.
  Parsing (\<^verbatim>\<open>BeautifulSoup(html, "lxml")\<close>) and \<^verbatim>\<open>soup.select\<close> may raise (the selector
  engine raises on a selector it cannot parse), so both return an error or a value; the
  calls that only read the parsed tree are total. An attribute value is a string, or a
  list of strings for a multi-valued attribute such as \<^verbatim>\<open>class\<close>.
\<close>

datatype attr_value = AStr string | AList "string list"

record ('doc, 'el) bs4 =
  bs_parse :: "string \<Rightarrow> error + 'doc"
  bs_select :: "'doc \<Rightarrow> string \<Rightarrow> error + 'el list"
  bs_tables :: "'doc \<Rightarrow> 'el list"
  el_name :: "'el \<Rightarrow> string"
  el_attrs :: "'el \<Rightarrow> attr_value dict"
  el_text :: "'el \<Rightarrow> string"
  el_classed :: "'el \<Rightarrow> 'el list"
  el_find :: "'el \<Rightarrow> string \<Rightarrow> 'el option"
  el_find_all :: "'el \<Rightarrow> string list \<Rightarrow> 'el list"

text \<open>
  \<^verbatim>\<open>str.strip()\<close> removes the whitespace characters from both ends (for the characters of
  one byte: tab to carriage return, the four separators, space, next line and no-break
  space); \<^verbatim>\<open>str.strip("_")\<close> removes underscores.
\<close>

definition is_space :: "char \<Rightarrow> bool" where
  "is_space c =
     (c \<in> set [CHR 0x09, CHR 0x0A, CHR 0x0B, CHR 0x0C, CHR 0x0D, CHR 0x1C, CHR 0x1D,
                CHR 0x1E, CHR 0x1F, CHR 0x20, CHR 0x85, CHR 0xA0])"

definition strip_where :: "(char \<Rightarrow> bool) \<Rightarrow> string \<Rightarrow> string" where
  "strip_where P s = rev (dropWhile P (rev (dropWhile P s)))"

definition py_strip :: "string \<Rightarrow> string" where
  "py_strip s = strip_where is_space s"

definition is_lower_alnum :: "char \<Rightarrow> bool" where
  "is_lower_alnum c = (c \<in> set ''abcdefghijklmnopqrstuvwxyz0123456789'')"

text \<open>\<^verbatim>\<open>re.sub(r"[^a-z0-9]+", "_", raw)\<close>: every maximal run of other characters becomes one underscore.\<close>

function sub_runs :: "string \<Rightarrow> string" where
  "sub_runs [] = []"
| "sub_runs (c # cs) =
     (if is_lower_alnum c then c # sub_runs cs
      else CHR ''_'' # sub_runs (dropWhile (\<lambda>x. \<not> is_lower_alnum x) cs))"
  by pat_completeness auto
termination
  by (relation "measure length") (auto simp: length_dropWhile_le less_Suc_eq_le)

definition clean_key :: "string \<Rightarrow> string" where
  "clean_key raw = strip_where (\<lambda>c. c = CHR ''_'') (sub_runs (map lower_char (py_strip raw)))"

text \<open>\<^verbatim>\<open>s.split(sep)[-1]\<close>: what follows the last occurrence of the separator, scanning from the left.\<close>

function last_piece :: "string \<Rightarrow> string \<Rightarrow> string \<Rightarrow> string" where
  "last_piece sep [] piece = piece"
| "last_piece sep (c # cs) piece =
     (if sep \<noteq> [] \<and> startswith (c # cs) sep
      then last_piece sep (drop (length sep) (c # cs)) []
      else last_piece sep cs (piece @ [c]))"
  by pat_completeness auto
termination
  by (relation "measure (\<lambda>(sep, s, piece). length s)") auto

definition extract_class_suffix :: "string \<Rightarrow> string" where
  "extract_class_suffix class_name =
     (if str_in ''__'' class_name then clean_key (last_piece ''__'' class_name [])
      else if str_in ''--'' class_name then clean_key (last_piece ''--'' class_name [])
      else clean_key class_name)"

definition get_element_text :: "('doc, 'el) bs4 \<Rightarrow> 'el \<Rightarrow> string" where
  "get_element_text lib element = el_text lib element"

definition get_element_attribute :: "('doc, 'el) bs4 \<Rightarrow> 'el \<Rightarrow> string \<Rightarrow> string option" where
  "get_element_attribute lib element attr =
     (case map_of (el_attrs lib element) attr of
        None \<Rightarrow> None
      | Some (AStr v) \<Rightarrow> if v \<noteq> [] then Some (py_strip v) else None
      | Some (AList vs) \<Rightarrow> (case vs of [] \<Rightarrow> None | v # _ \<Rightarrow> Some v))"

text \<open>Truth of an optional string, Python's \<^verbatim>\<open>or\<close> on two of them, and \<^verbatim>\<open>if v: record[key] = v\<close>.\<close>

definition truthy :: "string option \<Rightarrow> bool" where
  "truthy v = (case v of None \<Rightarrow> False | Some s \<Rightarrow> s \<noteq> [])"

definition py_or :: "string option \<Rightarrow> string option \<Rightarrow> string option" where
  "py_or a b = (if truthy a then a else b)"

definition set_if_truthy :: "json_record \<Rightarrow> string \<Rightarrow> string option \<Rightarrow> json_record" where
  "set_if_truthy record key v =
     (case v of
        None \<Rightarrow> record
      | Some s \<Rightarrow> if s \<noteq> [] then dict_set record key (JStr s) else record)"

text \<open>Strategy 1: the matched element is itself a link or an image.\<close>

definition own_attributes :: "('doc, 'el) bs4 \<Rightarrow> 'el \<Rightarrow> json_record \<Rightarrow> json_record" where
  "own_attributes lib element record =
     (if el_name lib element = ''a''
      then set_if_truthy record ''link'' (get_element_attribute lib element ''href'')
      else if el_name lib element = ''img''
      then (let r1 = set_if_truthy record ''src''
                       (py_or (get_element_attribute lib element ''src'')
                              (get_element_attribute lib element ''data-src''))
            in set_if_truthy r1 ''alt'' (get_element_attribute lib element ''alt''))
      else record)"

text \<open>
  Strategy 2: the descendants that carry a class, each class of each of them in turn.
  \<^verbatim>\<open>child.get("class", [])\<close> is the list of classes; iterating over a class attribute that
  is a plain string goes through its characters.
\<close>

definition classes_of :: "('doc, 'el) bs4 \<Rightarrow> 'el \<Rightarrow> string list" where
  "classes_of lib child =
     (case map_of (el_attrs lib child) ''class'' of
        None \<Rightarrow> []
      | Some (AList classes) \<Rightarrow> classes
      | Some (AStr s) \<Rightarrow> map (\<lambda>c. [c]) s)"

definition class_field :: "('doc, 'el) bs4 \<Rightarrow> 'el \<Rightarrow> json_record \<Rightarrow> string \<Rightarrow> json_record" where
  "class_field lib child record cls =
     (let field_name = extract_class_suffix cls in
      if field_name \<noteq> [] \<and> length field_name \<ge> 2
      then (let text = get_element_text lib child;
                r1 = (if text \<noteq> [] \<and> \<not> dict_has record field_name
                      then dict_set record field_name (JStr text) else record);
                r2 = (if el_name lib child = ''a''
                      then set_if_truthy r1 (field_name @ ''_url'')
                             (get_element_attribute lib child ''href'')
                      else r1)
            in if el_name lib child = ''img''
               then (let r3 = set_if_truthy r2 (field_name @ ''_image'')
                                (py_or (get_element_attribute lib child ''src'')
                                       (get_element_attribute lib child ''data-src''))
                     in set_if_truthy r3 (field_name @ ''_alt'')
                          (get_element_attribute lib child ''alt''))
               else r2)
      else record)"

definition classed_children :: "('doc, 'el) bs4 \<Rightarrow> 'el \<Rightarrow> json_record \<Rightarrow> json_record" where
  "classed_children lib element record =
     foldl (\<lambda>r child. foldl (class_field lib child) r (classes_of lib child))
       record (el_classed lib element)"

text \<open>Strategy 3: the \<^verbatim>\<open>data-\<close> attributes of the matched element.\<close>

definition value_truthy :: "attr_value \<Rightarrow> bool" where
  "value_truthy value = (case value of AStr s \<Rightarrow> s \<noteq> [] | AList vs \<Rightarrow> vs \<noteq> [])"

definition data_attribute :: "json_record \<Rightarrow> string \<times> attr_value \<Rightarrow> json_record" where
  "data_attribute record item =
     (case item of (attr, value) \<Rightarrow>
        if startswith attr ''data-'' \<and> value_truthy value
        then (let field_name = clean_key (str_replace attr ''data-'' '''') in
              case value of
                AStr s \<Rightarrow> if field_name \<noteq> [] then dict_set record field_name (JStr s) else record
              | AList vs \<Rightarrow> record)
        else record)"

definition data_attributes :: "('doc, 'el) bs4 \<Rightarrow> 'el \<Rightarrow> json_record \<Rightarrow> json_record" where
  "data_attributes lib element record = foldl data_attribute record (el_attrs lib element)"

text \<open>Strategy 4: the full text, when the record has no key outside the meta keys.\<close>

definition meta_keys :: "string list" where
  "meta_keys = [''_index'', ''link'', ''src'', ''alt'']"

definition has_content_fields :: "json_record \<Rightarrow> bool" where
  "has_content_fields record = list_ex (\<lambda>k. k \<notin> set meta_keys) (map fst record)"

definition full_text_fallback :: "('doc, 'el) bs4 \<Rightarrow> 'el \<Rightarrow> json_record \<Rightarrow> json_record" where
  "full_text_fallback lib element record =
     (if \<not> has_content_fields record
      then (let full_text = get_element_text lib element in
            if full_text \<noteq> [] then dict_set record ''text'' (JStr full_text) else record)
      else record)"

text \<open>
  The record of one matched element after the four strategies, then the removal of
  \<^verbatim>\<open>_index\<close> (\<^verbatim>\<open>if len(record) > 2: record.pop("_index", None)\<close>) and the test that decides
  whether the record is appended.
\<close>

definition derived_record :: "('doc, 'el) bs4 \<Rightarrow> nat \<Rightarrow> 'el \<Rightarrow> json_record" where
  "derived_record lib idx element =
     full_text_fallback lib element
       (data_attributes lib element
         (classed_children lib element
           (own_attributes lib element [(''_index'', JInt (int idx + 1))])))"

definition remove_index :: "json_record \<Rightarrow> json_record" where
  "remove_index record = (if length record > 2 then dict_pop record ''_index'' else record)"

definition appended :: "json_record \<Rightarrow> bool" where
  "appended record = (length record > 1 \<or> (length record = 1 \<and> \<not> dict_has record ''_index''))"

definition element_step :: "('doc, 'el) bs4 \<Rightarrow> json_record list \<Rightarrow> nat \<times> 'el \<Rightarrow> json_record list" where
  "element_step lib records item =
     (case item of (idx, element) \<Rightarrow>
        (let record = remove_index (derived_record lib idx element) in
         if appended record then records @ [record] else records))"

definition extract_records_with_selector ::
  "('doc, 'el) bs4 \<Rightarrow> string \<Rightarrow> string \<Rightarrow> error + json_record list" where
  "extract_records_with_selector lib html css_selector =
     (case bs_parse lib html of
        Inl exc \<Rightarrow> Inl exc
      | Inr soup \<Rightarrow>
          (case bs_select lib soup css_selector of
             Inl exc \<Rightarrow> Inl exc
           | Inr matched \<Rightarrow>
               if matched = [] then Inr []
               else Inr (foldl (element_step lib) [] (enumerate 0 matched))))"

text \<open>
  Tables. The records of one table are \<^verbatim>\<open>None\<close> when the loop body leaves by \<^verbatim>\<open>continue\<close>
  (no header could be found), so that the table takes no part in the choice of the best.
\<close>

definition table_headers :: "('doc, 'el) bs4 \<Rightarrow> 'el \<Rightarrow> string list" where
  "table_headers lib table =
     (let header_row = el_find lib table ''tr'';
          headers0 = (case header_row of
                        None \<Rightarrow> []
                      | Some hr \<Rightarrow>
                          (let ths = el_find_all lib hr [''th''] in
                           if ths \<noteq> [] then map (el_text lib) ths else []));
          headers1 = (case header_row of
                        None \<Rightarrow> headers0
                      | Some hr \<Rightarrow>
                          if headers0 = [] then map (el_text lib) (el_find_all lib hr [''td''])
                          else headers0)
      in map (\<lambda>(i, h). if h \<noteq> [] then h else ''col_'' @ str_of_nat (i + 1)) (enumerate 0 headers1))"

definition row_record :: "('doc, 'el) bs4 \<Rightarrow> string list \<Rightarrow> 'el \<Rightarrow> json_record option" where
  "row_record lib headers tr =
     (let cells = map (el_text lib) (take (length headers) (el_find_all lib tr [''td'', ''th''])) in
      if \<not> list_ex (\<lambda>c. c \<noteq> []) cells then None
      else Some (foldl (\<lambda>row i. dict_set row (headers ! i)
                                  (if i < length cells then JStr (cells ! i) else JNull))
                   [] [0..<length headers]))"

definition table_records :: "('doc, 'el) bs4 \<Rightarrow> 'el \<Rightarrow> json_record list option" where
  "table_records lib table =
     (let headers = table_headers lib table in
      if headers = [] then None
      else Some (List.map_filter (row_record lib headers) (drop 1 (el_find_all lib table [''tr'']))))"

definition best_step ::
  "('doc, 'el) bs4 \<Rightarrow> json_record list \<times> nat \<Rightarrow> 'el \<Rightarrow> json_record list \<times> nat" where
  "best_step lib best table =
     (case best of (best_records, best_len) \<Rightarrow>
        (case table_records lib table of
           None \<Rightarrow> (best_records, best_len)
         | Some records \<Rightarrow>
             if length records > best_len then (records, length records)
             else (best_records, best_len)))"

definition extract_records_from_tables :: "('doc, 'el) bs4 \<Rightarrow> string \<Rightarrow> error + json_record list" where
  "extract_records_from_tables lib html =
     (case bs_parse lib html of
        Inl exc \<Rightarrow> Inl exc
      | Inr soup \<Rightarrow> Inr (fst (foldl (best_step lib) ([], 0) (bs_tables lib soup))))"

definition extract_records_from_html ::
  "('doc, 'el) bs4 \<Rightarrow> string \<Rightarrow> string option \<Rightarrow> error + json_record list" where
  "extract_records_from_html lib html css_selector =
     (if (case css_selector of None \<Rightarrow> False | Some sel \<Rightarrow> sel \<noteq> [] \<and> py_strip sel \<noteq> [])
      then extract_records_with_selector lib html (py_strip (case css_selector of Some sel \<Rightarrow> sel | None \<Rightarrow> []))
      else (case extract_records_from_tables lib html of
              Inl exc \<Rightarrow> Inl exc
            | Inr found \<Rightarrow> if found \<noteq> [] then Inr found else Inr []))"

section \<open>Concrete inputs\<close>

text \<open>
  A store whose address 0 holds the caller's \<^verbatim>\<open>{"q": "shoes"}\<close>, and four page-fetch
  callbacks: one that always returns one record, one that always returns an empty page, one
  that serves one record per page while the requested offset is below 100 and an empty page
  from there on, and one that returns a record and also writes a key into the dictionary it
  was handed. The first two count their calls in \<open>world\<close>.
\<close>

definition demo_machine :: "nat machine" where
  "demo_machine = \<lparr>cells = (\<lambda>a. [])(0 := [(''q'', JStr ''shoes'')]), next_addr = 1, world = 0\<rparr>"

definition one_record_page :: "nat \<Rightarrow> (nat, json_record list) effect" where
  "one_record_page p s = (Inr [[(''id'', JInt (int (world s)))]], s\<lparr>world := Suc (world s)\<rparr>)"

definition no_records_page :: "nat \<Rightarrow> (nat, json_record list) effect" where
  "no_records_page p s = (Inr [], s\<lparr>world := Suc (world s)\<rparr>)"


definition marking_page :: "nat \<Rightarrow> (nat, json_record list) effect" where
  "marking_page p s = (Inr [[(''id'', JInt 7)]], set_param p ''seen'' (JBool True) s)"

text \<open>
  A resolver in which \<^verbatim>\<open>intranet.example\<close> has the single answer 127.0.0.1 and
  \<^verbatim>\<open>example.test\<close> a public address, the two facts of \<^verbatim>\<open>ipaddress\<close> that go with them,
  and what \<^verbatim>\<open>urlparse\<close> does on the URLs used below (it rejects \<^verbatim>\<open>http://[::1\<close>).
\<close>

definition demo_urlparse :: "string \<Rightarrow> error + parsed_url" where
  "demo_urlparse url =
     (if url = ''http://intranet.example/''
      then Inr \<lparr>scheme = ''http'', hostname = Some ''intranet.example''\<rparr>
      else if url = ''ftp://intranet.example/''
      then Inr \<lparr>scheme = ''ftp'', hostname = Some ''intranet.example''\<rparr>
      else if url = ''http://example.test/missing''
      then Inr \<lparr>scheme = ''http'', hostname = Some ''example.test''\<rparr>
      else if url = ''http://[::1''
      then Inl (ValueError ''Invalid IPv6 URL'')
      else Inr \<lparr>scheme = [], hostname = None\<rparr>)"

definition demo_dns :: "string \<Rightarrow> dns_answer" where
  "demo_dns host =
     (if host = ''intranet.example'' then Resolved [(AF_INET, ''127.0.0.1'')]
      else if host = ''example.test'' then Resolved [(AF_INET, ''93.184.216.34'')]
      else GaiError ''Name or service not known'')"

definition demo_ip_address :: "string \<Rightarrow> ip_obj option" where
  "demo_ip_address ip =
     (if ip = ''127.0.0.1''
      then Some \<lparr>is_loopback = True, is_private = True, is_link_local = False,
                 is_multicast = False, is_reserved = False, version = 4\<rparr>
      else if ip = ''93.184.216.34''
      then Some \<lparr>is_loopback = False, is_private = False, is_link_local = False,
                 is_multicast = False, is_reserved = False, version = 4\<rparr>
      else None)"

text \<open>
  The default settings of \<^verbatim>\<open>core/config.py\<close>, the same with a byte cap of 4, and a server
  that answers every request with a 404 whose body has 9 bytes; the world counts the
  requests sent.
\<close>

definition default_settings :: settings where
  "default_settings = \<lparr>http_connect_timeout_s = 5, http_read_timeout_s = 20,
                         http_max_bytes = 2000000, block_private_networks = True\<rparr>"

definition small_cap_settings :: settings where
  "small_cap_settings = \<lparr>http_connect_timeout_s = 5, http_read_timeout_s = 20,
                           http_max_bytes = 4, block_private_networks = True\<rparr>"

definition not_found_response :: http_response where
  "not_found_response =
     \<lparr>resp_url = ''http://example.test/missing'', resp_status_code = 404,
      resp_headers = [(''Content-Type'', ''text/plain'')], resp_content = Some ''Not Found''\<rparr>"

definition not_found_server :: "http_request \<Rightarrow> nat \<Rightarrow> (error + http_response) \<times> nat" where
  "not_found_server req w = (Inr not_found_response, Suc w)"

definition no_pause :: "nat \<Rightarrow> nat \<Rightarrow> nat" where
  "no_pause seconds w = w"

definition demo_runtime :: "nat runtime" where
  "demo_runtime =
     \<lparr>lib_urlparse = demo_urlparse, lib_getaddrinfo = demo_dns, lib_ip_address = demo_ip_address,
      lib_requests_get = not_found_server, lib_requests_post = not_found_server,
      lib_sleep = no_pause\<rparr>"

text \<open>
  \<^verbatim>\<open>{"a": [{"b": [{}, {}]}]}\<close>, where a longer list of records lies inside the elements of a
  shorter one, and
  \<^verbatim>\<open>{"x": {"late": [{}, {}, {}]}, "first": [{"id": 1}, {"id": 2}, {"id": 3}], "short": [{}]}\<close>,
  where two lists of three records are found.
\<close>

definition nested_payload :: json where
  "nested_payload = JObj [(''a'', JArr [JObj [(''b'', JArr [JObj [], JObj []])]])]"

definition tie_payload :: json where
  "tie_payload =
     JObj [(''x'', JObj [(''late'', JArr [JObj [], JObj [], JObj []])]),
           (''first'', JArr [JObj [(''id'', JInt 1)], JObj [(''id'', JInt 2)], JObj [(''id'', JInt 3)]]),
           (''short'', JArr [JObj []])]"

text \<open>
  One record with the keys \<^verbatim>\<open>ab\<close>, \<^verbatim>\<open>B\<close> and \<^verbatim>\<open>A_b\<close>: two of them have the normalized form
  \<^verbatim>\<open>ab\<close>.
\<close>

definition collision_records :: "json_record list" where
  "collision_records = [[(''ab'', JInt 3), (''B'', JInt 2), (''A_b'', JInt 1)]]"

text \<open>
  A small stand-in for the parser: an element is its name, its attributes, its text and its
  descendants in document order; the document is one made of a single card, or of a single
  table that has only a header row. The selector \<^verbatim>\<open>div[\<close> is one the selector engine
  refuses.
\<close>

datatype demo_el = DemoEl (de_name: string) (de_attrs: "attr_value dict") (de_text: string)
  (de_descendants: "demo_el list")

definition card_html :: string where
  "card_html = ''<div class=card><span class=title>Hello</span></div>''"

definition card_element :: demo_el where
  "card_element =
     DemoEl ''div'' [(''class'', AList [''card''])] ''Hello''
       [DemoEl ''span'' [(''class'', AList [''title''])] ''Hello'' []]"

definition table_html :: string where
  "table_html = ''<table><tr><th>Name</th></tr></table>''"

definition header_only_table :: demo_el where
  "header_only_table =
     DemoEl ''table'' [] ''Name''
       [DemoEl ''tr'' [] ''Name'' [DemoEl ''th'' [] ''Name'' []], DemoEl ''th'' [] ''Name'' []]"

definition demo_select :: "string \<Rightarrow> string \<Rightarrow> error + demo_el list" where
  "demo_select doc css_selector =
     (if css_selector = ''div['' then Inl (OtherException ''SelectorSyntaxError'')
      else if doc = card_html \<and> css_selector = ''.card'' then Inr [card_element]
      else Inr [])"

definition demo_bs4 :: "(string, demo_el) bs4" where
  "demo_bs4 =
     \<lparr> bs_parse = Inr,
       bs_select = demo_select,
       bs_tables = (\<lambda>doc. if doc = table_html then [header_only_table] else []),
       el_name = de_name,
       el_attrs = de_attrs,
       el_text = de_text,
       el_classed = (\<lambda>e. filter (\<lambda>d. map_of (de_attrs d) ''class'' \<noteq> None) (de_descendants e)),
       el_find = (\<lambda>e name. find (\<lambda>d. de_name d = name) (de_descendants e)),
       el_find_all = (\<lambda>e names. filter (\<lambda>d. de_name d \<in> set names) (de_descendants e)) \<rparr>"

section \<open>Properties of the pagination engine\<close>

lemma map_of_dict_set: "map_of (dict_set d k v) = (map_of d)(k \<mapsto> v)"
  by (induction d k v rule: dict_set.induct) auto

lemma cells_set_param: "cells (set_param p k v s) = (cells s)(p := dict_set (cells s p) k v)"
  by (simp add: set_param_def)

lemma cells_pop_param: "cells (pop_param p k s) = (cells s)(p := dict_pop (cells s p) k)"
  by (simp add: pop_param_def)

subsection \<open>Cursor pagination without a cursor getter\<close>

text \<open>
  C2, as the spec states it: a cursor run with no \<^verbatim>\<open>cursor_getter\<close> reports
  \<^verbatim>\<open>missing_cursor_getter\<close> whatever the first page fetch returns. It does not when the first
  page is empty: the emptiness check comes first in the loop body, and the run reports
  \<^verbatim>\<open>empty_page\<close>.
\<close>

theorem cursor_without_getter_empty_page_counterexample:
  "fst (run_pagination (CursorPagination ''after'' ''next'' 10 None) no_records_page
          None None None demo_machine) = finished [] 1 ''empty_page''
   \<and> ''empty_page'' \<noteq> ''missing_cursor_getter''"
  by (simp add: demo_machine_def no_records_page_def copy_base_params_def place_cursor_def
        dict_has_def eval_nat_numeral)

text \<open>
  C2, amended: with \<open>max_pages \<ge> 1\<close> (the schema's bound) and no \<^verbatim>\<open>cursor_getter\<close>, the run
  calls \<^verbatim>\<open>fetch_page\<close> exactly once: the call log holds the one snapshot of the parameters
  with the initial cursor placed, and the final state is the state that call left. If the
  page is not empty the run returns its records with \<^verbatim>\<open>pages_fetched = 1\<close> and
  \<^verbatim>\<open>missing_cursor_getter\<close>; if it is empty, \<^verbatim>\<open>empty_page\<close>; if the call raises, the exception
  propagates.
\<close>

theorem cursor_without_getter_single_page:
  assumes "1 \<le> max_pages"
  shows "run_pagination (CursorPagination cursor_param cursor_field max_pages initial_cursor)
           fetch_page base_params None cursor_setter s =
         (case copy_base_params base_params s of
            (p, s0) \<Rightarrow>
              let s1 = place_cursor p cursor_param initial_cursor s0
              in case fetch_page p s1 of
                   (page, s2) \<Rightarrow>
                     ((case page of
                         Inl exc \<Rightarrow> Inl exc
                       | Inr records \<Rightarrow>
                           if records = [] then finished [] 1 ''empty_page''
                           else finished records 1 ''missing_cursor_getter''),
                      [cells s1 p], s2))"
proof -
  from assms obtain k where k: "nat max_pages = Suc k"
    by (cases "nat max_pages") auto
  show ?thesis
    by (simp add: k Let_def split: prod.splits sum.splits)
qed

theorem cursor_without_getter_single_page_witness:
  "(1::int) \<le> 10 \<and>
   run_pagination (CursorPagination ''after'' ''next'' 10 None) one_record_page None None None
     demo_machine =
   (finished [[(''id'', JInt 0)]] 1 ''missing_cursor_getter'',
    [[]],
    \<lparr>cells = ((\<lambda>a. [])(0 := [(''q'', JStr ''shoes'')]))(1 := []), next_addr = 2, world = 1\<rparr>)"
proof -
  have h: "(1::int) \<le> 10" by simp
  show ?thesis
    using h cursor_without_getter_single_page [OF h, of "''after''" "''next''" None
        one_record_page None None demo_machine]
    by (simp add: demo_machine_def one_record_page_def copy_base_params_def place_cursor_def
          dict_has_def Let_def)
qed

subsection \<open>Offset pagination\<close>





subsection \<open>The caller's parameter dictionary\<close>

lemma page_param_loop_frame:
  assumes pb: "p \<noteq> b"
    and fr: "\<And>q t. q \<noteq> b \<Longrightarrow> cells (snd (fetch_page q t)) b = cells t b"
  shows "cells (snd (snd (page_param_loop fetch_page p param page end_page all_records n calls s))) b
         = cells s b"
  using pb fr
proof (induction fetch_page p param page end_page all_records n calls s rule: page_param_loop.induct)
  case (1 fetch_page p param page end_page all_records n calls s)
  show ?case
  proof (cases "page < end_page + 1")
    case False
    then show ?thesis by (subst page_param_loop.simps) simp
  next
    case True
    let ?s1 = "set_param p param (JInt page) s"
    obtain r s2 where f: "fetch_page p ?s1 = (r, s2)" by (cases "fetch_page p ?s1")
    have s2: "cells s2 b = cells s b"
      using "1.prems"(2)[OF "1.prems"(1), of ?s1] f "1.prems"(1) by (simp add: cells_set_param)
    show ?thesis
    proof (cases r)
      case (Inl exc)
      then show ?thesis using True f s2 by (subst page_param_loop.simps) (simp add: Let_def)
    next
      case (Inr records)
      show ?thesis
      proof (cases "records = []")
        case True
        then show ?thesis using \<open>page < end_page + 1\<close> f s2 Inr
          by (subst page_param_loop.simps) (simp add: Let_def)
      next
        case False
        have "cells (snd (snd (page_param_loop fetch_page p param (page + 1) end_page
                (all_records @ records) (n + 1) (calls @ [cells ?s1 p]) s2))) b = cells s2 b"
          using "1.IH"[OF \<open>page < end_page + 1\<close> refl refl f[symmetric] Inr False "1.prems"] 
          by simp
        then show ?thesis using \<open>page < end_page + 1\<close> f s2 Inr False
          by (subst page_param_loop.simps) (simp add: Let_def)
      qed
    qed
  qed
qed

lemma offset_loop_frame:
  assumes pb: "p \<noteq> b"
    and fr: "\<And>q t. q \<noteq> b \<Longrightarrow> cells (snd (fetch_page q t)) b = cells t b"
  shows "cells (snd (snd (offset_loop k fetch_page p offset_param limit_param limit offset
           all_records n calls s))) b = cells s b"
proof (induction k arbitrary: offset all_records n calls s)
  case 0
  show ?case by simp
next
  case (Suc k)
  let ?s1 = "set_param p limit_param (JInt limit) (set_param p offset_param (JInt offset) s)"
  obtain r s2 where f: "fetch_page p ?s1 = (r, s2)" by (cases "fetch_page p ?s1")
  have s2: "cells s2 b = cells s b"
    using fr[OF pb, of ?s1] f pb by (simp add: cells_set_param)
  show ?case
    using f s2 Suc.IH by (cases r) (simp_all add: Let_def)
qed

lemma cursor_loop_frame:
  assumes pb: "p \<noteq> b"
    and fr: "\<And>q t. q \<noteq> b \<Longrightarrow> cells (snd (fetch_page q t)) b = cells t b"
    and gfr: "\<And>g t. cursor_getter = Some g \<Longrightarrow> cells (snd (g t)) b = cells t b"
    and sfr: "\<And>f c t. cursor_setter = Some f \<Longrightarrow> cells (snd (f c t)) b = cells t b"
  shows "cells (snd (snd (cursor_loop k fetch_page cursor_getter cursor_setter p cursor_param cursor
           all_records n calls s))) b = cells s b"
proof (induction k arbitrary: cursor all_records n calls s)
  case 0
  show ?case by simp
next
  case (Suc k)
  define s1 where "s1 = place_cursor p cursor_param cursor s"
  have s1: "cells s1 b = cells s b"
    using pb by (simp add: s1_def place_cursor_def cells_set_param cells_pop_param split: option.splits)
  obtain r s2 where f: "fetch_page p s1 = (r, s2)" by (cases "fetch_page p s1")
  have s2: "cells s2 b = cells s b"
    using fr[OF pb, of s1] f s1 by simp
  note unfold = cursor_loop.simps(2)[of k fetch_page cursor_getter cursor_setter p cursor_param cursor
           all_records n calls s, unfolded Let_def, folded s1_def, unfolded f]
  show ?case
  proof (cases r)
    case (Inl exc)
    then show ?thesis using unfold s2 by simp
  next
    case (Inr records)
    show ?thesis
    proof (cases "records = []")
      case True
      then show ?thesis using unfold s2 Inr by simp
    next
      case ne: False
      show ?thesis
      proof (cases cursor_getter)
        case None
        then show ?thesis using unfold s2 Inr ne by simp
      next
        case (Some getter)
        obtain gr s3 where g: "getter s2 = (gr, s3)" by (cases "getter s2")
        have s3: "cells s3 b = cells s b" using gfr[OF Some, of s2] g s2 by simp
        show ?thesis
        proof (cases gr)
          case (Inl exc)
          then show ?thesis using unfold s3 Inr ne Some g by simp
        next
          case gc: (Inr cursor')
          obtain sr s4 where st: "forward_cursor cursor_setter cursor' s3 = (sr, s4)"
            by (cases "forward_cursor cursor_setter cursor' s3")
          have s4: "cells s4 b = cells s b"
          proof (cases cursor_setter)
            case None
            then show ?thesis using st s3 by (simp add: forward_cursor_def)
          next
            case (Some setter)
            then show ?thesis using st s3 sfr[OF Some, of cursor' s3] by (simp add: forward_cursor_def)
          qed
          show ?thesis
            using unfold Inr ne Some g gc st s4 Suc.IH
            by (cases sr) (simp_all)
        qed
      qed
    qed
  qed
qed

lemma copy_base_params_fresh:
  assumes "b < next_addr s" and "copy_base_params base_params s = (p, s0)"
  shows "p \<noteq> b \<and> cells s0 b = cells s b"
  using assms by (auto simp: copy_base_params_def Let_def)

text \<open>
  C10: for every pagination variant, the dictionary object that the caller passed as
  \<^verbatim>\<open>base_params\<close> (at an allocated address \<open>b\<close>) has the same contents after the run as
  before: the engine assigns and removes keys only in the copy it allocated. The callbacks
  are arbitrary but for the frame condition that they do not themselves write to the
  caller's dictionary (\<^verbatim>\<open>fetch_page\<close> may change the dictionary it is handed).
\<close>

theorem base_params_unchanged:
  assumes alloc: "b < next_addr s"
    and fr: "\<And>q t. q \<noteq> b \<Longrightarrow> cells (snd (fetch_page q t)) b = cells t b"
    and gfr: "\<And>g t. cursor_getter = Some g \<Longrightarrow> cells (snd (g t)) b = cells t b"
    and sfr: "\<And>f c t. cursor_setter = Some f \<Longrightarrow> cells (snd (f c t)) b = cells t b"
  shows "cells (snd (snd (run_pagination pagination fetch_page (Some b) cursor_getter cursor_setter s))) b
         = cells s b"
proof -
  obtain p s0 where c: "copy_base_params (Some b) s = (p, s0)"
    by (cases "copy_base_params (Some b) s")
  from copy_base_params_fresh[OF alloc c] have pb: "p \<noteq> b" and s0: "cells s0 b = cells s b"
    by simp_all
  show ?thesis
  proof (cases pagination)
    case (PageParamPagination param start end_page)
    have "cells (snd (snd (page_param_loop fetch_page p param start end_page [] 0 [] s0))) b
          = cells s0 b"
      by (rule page_param_loop_frame [OF pb]) (simp add: fr)
    then show ?thesis using PageParamPagination c s0 by simp
  next
    case (OffsetPagination offset_param limit_param limit max_pages start_offset)
    have "cells (snd (snd (offset_loop (nat max_pages) fetch_page p offset_param limit_param limit
                  start_offset [] 0 [] s0))) b = cells s0 b"
      by (rule offset_loop_frame [OF pb]) (simp add: fr)
    then show ?thesis using OffsetPagination c s0 by simp
  next
    case (CursorPagination cursor_param cursor_field max_pages initial_cursor)
    have "cells (snd (snd (cursor_loop (nat max_pages) fetch_page cursor_getter cursor_setter p
                  cursor_param initial_cursor [] 0 [] s0))) b = cells s0 b"
      by (rule cursor_loop_frame [OF pb]) (simp_all add: fr gfr sfr)
    then show ?thesis using CursorPagination c s0 by simp
  qed
qed

theorem base_params_unchanged_witness:
  "0 < next_addr demo_machine \<and>
   cells (snd (snd (run_pagination (OffsetPagination ''offset'' ''limit'' 20 2 0) marking_page
     (Some 0) None None demo_machine))) 0 = [(''q'', JStr ''shoes'')] \<and>
   cells (snd (snd (run_pagination (OffsetPagination ''offset'' ''limit'' 20 2 0) marking_page
     (Some 0) None None demo_machine))) 1 =
     [(''q'', JStr ''shoes''), (''offset'', JInt 20), (''limit'', JInt 20), (''seen'', JBool True)]"
proof -
  have h1: "0 < next_addr demo_machine"
    by (simp add: demo_machine_def)
  have kept: "cells (snd (snd (run_pagination (OffsetPagination ''offset'' ''limit'' 20 2 0)
                 marking_page (Some 0) None None demo_machine))) 0 = cells demo_machine 0"
    by (rule base_params_unchanged [where b = 0 and s = demo_machine
          and fetch_page = marking_page and cursor_getter = None and cursor_setter = None])
       (simp_all add: h1 marking_page_def cells_set_param)
  have written: "cells (snd (snd (run_pagination (OffsetPagination ''offset'' ''limit'' 20 2 0)
                 marking_page (Some 0) None None demo_machine))) 1 =
     [(''q'', JStr ''shoes''), (''offset'', JInt 20), (''limit'', JInt 20), (''seen'', JBool True)]"
    by (simp add: demo_machine_def marking_page_def copy_base_params_def set_param_def
          eval_nat_numeral Let_def)
  show ?thesis
    using h1 kept written by (simp add: demo_machine_def)
qed

section \<open>Properties of the identifier injector\<close>

text \<open>
  C8: \<^verbatim>\<open>inject("42", "id", "https://x/{id}", {"id": "x"}, {"variables": {"id": "x"}})\<close> returns
  the URL \<^verbatim>\<open>https://x/42\<close>, the parameters \<^verbatim>\<open>{"id": "42"}\<close> and the body
  \<^verbatim>\<open>{"variables": {"id": "42"}}\<close>.
\<close>

theorem inject_identifier_example:
  "inject_identifier ''42'' ''id'' ''https://x/{id}'' [(''id'', JStr ''x'')]
     (Some [(''variables'', JObj [(''id'', JStr ''x'')])]) =
   (''https://x/42'', [(''id'', JStr ''42'')],
    Some [(''variables'', JObj [(''id'', JStr ''42'')])])"
  by (simp add: inject_identifier_def dict_has_def startswith_def)

theorem inject_identifier_example_witness:
  "fst (inject_identifier ''42'' ''id'' ''https://x/{id}'' [(''id'', JStr ''x'')]
     (Some [(''variables'', JObj [(''id'', JStr ''x'')])])) = ''https://x/42''"
  using inject_identifier_example by simp

section \<open>Properties of the SSRF guard\<close>

lemma loopback_is_private_or_local:
  assumes "\<And>obj. ip_address ''127.0.0.1'' = Some obj \<Longrightarrow> version obj = 4"
  shows "is_private_or_local ip_address ''127.0.0.1''"
  using assms
  by (auto simp: is_private_or_local_def PRIVATE_IP_PREFIXES_def startswith_def
           split: option.splits)

text \<open>
  C1, as the spec states it: a host whose only DNS answer is 127.0.0.1 makes the guard raise
  \<^verbatim>\<open>BlockedHostError\<close>, a class of its own and not a plain fetch error. The module of error
  classes defines \<^verbatim>\<open>WdspError\<close>, \<^verbatim>\<open>FetchError\<close> and \<^verbatim>\<open>ParseError\<close> only, and what the guard
  raises for such a host is a \<^verbatim>\<open>FetchError\<close>.
\<close>

theorem loopback_host_plain_fetch_error_counterexample:
  "resolve_and_block_private_hosts demo_urlparse demo_dns demo_ip_address
     ''http://intranet.example/'' =
   Inl (FetchError (''Blocked host '' @ quoted ''intranet.example'' @
                    '' (resolves to private/internal IP)''))"
  by (simp add: resolve_and_block_private_hosts_def validate_public_http_url_def
        check_resolved_def demo_urlparse_def demo_dns_def demo_ip_address_def collect_ips_def
        is_private_or_local_def)

text \<open>
  C1, amended: for every URL that \<^verbatim>\<open>urlparse\<close> accepts and for whose host the resolver
  answers only 127.0.0.1, the guard raises \<^verbatim>\<open>FetchError\<close>, whether or not the scheme is
  valid; for a URL that \<^verbatim>\<open>urlparse\<close> rejects, the guard raises what \<^verbatim>\<open>urlparse\<close> raised
  (\<^verbatim>\<open>ValueError\<close>), before any lookup. The one fact used of the address library is that, if
  it accepts the text 127.0.0.1, it reads it as an IPv4 address; the guard's own prefix
  list does the rest.
\<close>

theorem loopback_host_raises_fetch_error:
  assumes dns: "\<And>parsed host. urlparse url = Inr parsed \<Longrightarrow> hostname parsed = Some host \<Longrightarrow>
                  \<exists>infos. getaddrinfo host = Resolved infos \<and> snd ` set infos \<subseteq> {''127.0.0.1''}"
    and lib: "\<And>obj. ip_address ''127.0.0.1'' = Some obj \<Longrightarrow> version obj = 4"
  shows "case urlparse url of
           Inr parsed \<Rightarrow>
             (\<exists>msg. resolve_and_block_private_hosts urlparse getaddrinfo ip_address url =
                     Inl (FetchError msg))
         | Inl exc \<Rightarrow>
             resolve_and_block_private_hosts urlparse getaddrinfo ip_address url = Inl exc"
proof (cases "urlparse url")
  case (Inl exc)
  then show ?thesis
    by (simp add: resolve_and_block_private_hosts_def validate_public_http_url_def)
next
  case (Inr parsed)
  have "\<exists>msg. resolve_and_block_private_hosts urlparse getaddrinfo ip_address url =
              Inl (FetchError msg)"
  proof (cases "validate_public_http_url urlparse url")
    case (Inl exc)
    then have "\<exists>msg. exc = FetchError msg"
      using Inr by (auto simp: validate_public_http_url_def split: if_splits option.splits)
    then show ?thesis
      using Inl by (auto simp: resolve_and_block_private_hosts_def)
  next
    case ok: (Inr u)
    then obtain host where h: "hostname parsed = Some host" and ne: "host \<noteq> []"
      using Inr by (auto simp: validate_public_http_url_def split: if_splits option.splits)
    from dns[OF Inr h] obtain infos where r: "getaddrinfo host = Resolved infos"
      and only: "snd ` set infos \<subseteq> {''127.0.0.1''}"
      by blast
    have ips: "set (collect_ips infos) \<subseteq> {''127.0.0.1''}"
      using only by (auto simp: collect_ips_def split: if_splits)
    have "\<exists>msg. check_resolved getaddrinfo ip_address host = Inl (FetchError msg)"
    proof (cases "collect_ips infos = []")
      case True
      then show ?thesis
        using r by (simp add: check_resolved_def)
    next
      case False
      then obtain ip where "ip \<in> set (collect_ips infos)"
        by (cases "collect_ips infos") auto
      with ips have "''127.0.0.1'' \<in> set (collect_ips infos)"
        by auto
      then have "list_ex (is_private_or_local ip_address) (collect_ips infos)"
        using loopback_is_private_or_local[OF lib] by (auto simp: list_ex_iff)
      then show ?thesis
        using r False by (simp add: check_resolved_def)
    qed
    then show ?thesis
      using ok Inr h ne by (simp add: resolve_and_block_private_hosts_def)
  qed
  then show ?thesis
    using Inr by simp
qed

theorem loopback_host_raises_fetch_error_witness:
  "(\<exists>msg. resolve_and_block_private_hosts demo_urlparse demo_dns demo_ip_address
            ''http://intranet.example/'' = Inl (FetchError msg)) \<and>
   (\<exists>msg. resolve_and_block_private_hosts demo_urlparse demo_dns demo_ip_address
            ''ftp://intranet.example/'' = Inl (FetchError msg)) \<and>
   resolve_and_block_private_hosts demo_urlparse demo_dns demo_ip_address ''http://[::1'' =
     Inl (ValueError ''Invalid IPv6 URL'')"
proof -
  have dns: "\<exists>infos. demo_dns host = Resolved infos \<and> snd ` set infos \<subseteq> {''127.0.0.1''}"
    if "demo_urlparse url = Inr parsed" and "hostname parsed = Some host"
      and "url \<in> {''http://intranet.example/'', ''ftp://intranet.example/'', ''http://[::1''}"
    for url parsed host
    using that by (auto simp: demo_urlparse_def demo_dns_def split: if_splits)
  have lib: "\<And>obj. demo_ip_address ''127.0.0.1'' = Some obj \<Longrightarrow> version obj = 4"
    by (auto simp: demo_ip_address_def)
  have p1: "demo_urlparse ''http://intranet.example/'' =
              Inr \<lparr>scheme = ''http'', hostname = Some ''intranet.example''\<rparr>"
    by (simp add: demo_urlparse_def)
  have p2: "demo_urlparse ''ftp://intranet.example/'' =
              Inr \<lparr>scheme = ''ftp'', hostname = Some ''intranet.example''\<rparr>"
    by (simp add: demo_urlparse_def)
  have p3: "demo_urlparse ''http://[::1'' = Inl (ValueError ''Invalid IPv6 URL'')"
    by (simp add: demo_urlparse_def)
  have t1: "case demo_urlparse ''http://intranet.example/'' of
           Inr parsed \<Rightarrow>
             (\<exists>msg. resolve_and_block_private_hosts demo_urlparse demo_dns demo_ip_address
                      ''http://intranet.example/'' = Inl (FetchError msg))
         | Inl exc \<Rightarrow>
             resolve_and_block_private_hosts demo_urlparse demo_dns demo_ip_address
               ''http://intranet.example/'' = Inl exc"
    by (rule loopback_host_raises_fetch_error [where urlparse = demo_urlparse
          and getaddrinfo = demo_dns and ip_address = demo_ip_address])
       (auto intro: dns lib)
  have t2: "case demo_urlparse ''ftp://intranet.example/'' of
           Inr parsed \<Rightarrow>
             (\<exists>msg. resolve_and_block_private_hosts demo_urlparse demo_dns demo_ip_address
                      ''ftp://intranet.example/'' = Inl (FetchError msg))
         | Inl exc \<Rightarrow>
             resolve_and_block_private_hosts demo_urlparse demo_dns demo_ip_address
               ''ftp://intranet.example/'' = Inl exc"
    by (rule loopback_host_raises_fetch_error [where urlparse = demo_urlparse
          and getaddrinfo = demo_dns and ip_address = demo_ip_address])
       (auto intro: dns lib)
  have t3: "case demo_urlparse ''http://[::1'' of
           Inr parsed \<Rightarrow>
             (\<exists>msg. resolve_and_block_private_hosts demo_urlparse demo_dns demo_ip_address
                      ''http://[::1'' = Inl (FetchError msg))
         | Inl exc \<Rightarrow>
             resolve_and_block_private_hosts demo_urlparse demo_dns demo_ip_address
               ''http://[::1'' = Inl exc"
    by (rule loopback_host_raises_fetch_error [where urlparse = demo_urlparse
          and getaddrinfo = demo_dns and ip_address = demo_ip_address])
       (auto intro: dns lib)
  show ?thesis
    using t1 t2 t3 unfolding p1 p2 p3 by simp
qed

section \<open>Properties of the HTTP fetch layer\<close>

lemma attempts_response:
  assumes "attempt \<le> max_retries" and "send req w = (Inr resp, w1)"
    and "int (length (response_body resp)) \<le> http_max_bytes cfg"
  shows "attempts cfg send pause verb req max_retries attempt w = (Inr (fetch_result_of resp), w1)"
  using assms by (subst attempts.simps) simp

lemma attempts_oversized:
  assumes "attempt \<le> max_retries" and "send req w = (Inr resp, w1)"
    and "http_max_bytes cfg < int (length (response_body resp))"
  shows "attempts cfg send pause verb req max_retries attempt w =
         (Inl (FetchError (''Response too large (>'' @ str_of_int (http_max_bytes cfg) @
                           '' bytes)'')), w1)"
  using assms by (subst attempts.simps) simp

lemma attempts_other_exception:
  assumes "attempt \<le> max_retries" and "send req w = (Inl exc, w1)"
    and "\<not> is_request_exception exc"
  shows "attempts cfg send pause verb req max_retries attempt w = (Inl exc, w1)"
  using assms
  by (subst attempts.simps) (simp add: is_request_exception_def split: error.splits)

lemma attempts_transport_failure:
  assumes "attempt < max_retries" and "send req w = (Inl (RequestException m), w1)"
  shows "attempts cfg send pause verb req max_retries attempt w =
         attempts cfg send pause verb req max_retries (attempt + 1) (pause 1 w1)"
  using assms by (subst attempts.simps) simp

text \<open>
  C3, as the spec states it: every GET or POST whose response has a status of 400 or more
  returns a normal \<^verbatim>\<open>FetchResult\<close> rather than raising. With a byte cap of 4, a 404 whose
  body has 9 bytes raises \<^verbatim>\<open>FetchError\<close>: the size check sits between the library call and
  the construction of the result, for every status. One request was sent.
\<close>

theorem oversized_error_response_counterexample:
  "get_bytes small_cap_settings demo_runtime ''http://example.test/missing'' None None None 3 0 =
     (Inl (FetchError ''Response too large (>4 bytes)''), 1)
   \<and> post_bytes small_cap_settings demo_runtime ''http://example.test/missing'' None None None 3 0 =
     (Inl (FetchError ''Response too large (>4 bytes)''), 1)"
  by (simp add: get_bytes_def post_bytes_def guard_def small_cap_settings_def demo_runtime_def
        attempts.simps not_found_server_def not_found_response_def response_body_def
        str_of_int_def str_of_nat.simps digit_char_def
        resolve_and_block_private_hosts_def validate_public_http_url_def check_resolved_def
        demo_urlparse_def demo_dns_def demo_ip_address_def collect_ips_def is_private_or_local_def
        PRIVATE_IP_PREFIXES_def startswith_def)

text \<open>
  C3, amended. At any attempt of the retry loop of \<^verbatim>\<open>get_bytes\<close> and of \<^verbatim>\<open>post_bytes\<close>:
  a response whose body is within the byte cap is returned as a \<^verbatim>\<open>FetchResult\<close> carrying its
  status code, whatever that code is (so also when it is 400 or more), and the world is as
  the library call left it: no pause, no further request; a response whose body exceeds the
  cap raises \<^verbatim>\<open>FetchError\<close>, also without a retry; an exception of the call that is not a
  \<^verbatim>\<open>RequestException\<close> propagates without a retry; and a \<^verbatim>\<open>RequestException\<close> with attempts
  left is followed by a pause of one second and the next attempt. Once the guard has passed,
  \<^verbatim>\<open>get_bytes\<close> and \<^verbatim>\<open>post_bytes\<close> are this loop from attempt 0.
\<close>

theorem error_status_returned_without_retry:
  assumes "attempt \<le> max_retries"
  shows "(send req w = (Inr resp, w1) \<and> int (length (response_body resp)) \<le> http_max_bytes cfg \<longrightarrow>
            attempts cfg send pause verb req max_retries attempt w = (Inr (fetch_result_of resp), w1) \<and>
            fr_status_code (fetch_result_of resp) = resp_status_code resp) \<and>
         (send req w = (Inr resp, w1) \<and> http_max_bytes cfg < int (length (response_body resp)) \<longrightarrow>
            attempts cfg send pause verb req max_retries attempt w =
              (Inl (FetchError (''Response too large (>'' @ str_of_int (http_max_bytes cfg) @
                                '' bytes)'')), w1)) \<and>
         (send req w = (Inl exc, w1) \<and> \<not> is_request_exception exc \<longrightarrow>
            attempts cfg send pause verb req max_retries attempt w = (Inl exc, w1)) \<and>
         (send req w = (Inl (RequestException m), w1) \<and> attempt < max_retries \<longrightarrow>
            attempts cfg send pause verb req max_retries attempt w =
              attempts cfg send pause verb req max_retries (attempt + 1) (pause 1 w1)) \<and>
         (guard cfg rt url = Inr () \<longrightarrow>
            get_bytes cfg rt url headers params cookies max_retries w0 =
              attempts cfg (lib_requests_get rt) (lib_sleep rt) ''fetch''
                (get_request cfg url headers params cookies) max_retries 0 w0 \<and>
            post_bytes cfg rt url headers body cookies max_retries w0 =
              attempts cfg (lib_requests_post rt) (lib_sleep rt) ''POST''
                (post_request cfg url headers body cookies) max_retries 0 w0)"
proof (intro conjI impI)
  assume "send req w = (Inr resp, w1) \<and> int (length (response_body resp)) \<le> http_max_bytes cfg"
  then show "attempts cfg send pause verb req max_retries attempt w = (Inr (fetch_result_of resp), w1)"
    using assms by (simp add: attempts_response)
next
  show "fr_status_code (fetch_result_of resp) = resp_status_code resp"
    by (simp add: fetch_result_of_def)
next
  assume "send req w = (Inr resp, w1) \<and> http_max_bytes cfg < int (length (response_body resp))"
  then show "attempts cfg send pause verb req max_retries attempt w =
              (Inl (FetchError (''Response too large (>'' @ str_of_int (http_max_bytes cfg) @
                                '' bytes)'')), w1)"
    using assms by (simp add: attempts_oversized)
next
  assume "send req w = (Inl exc, w1) \<and> \<not> is_request_exception exc"
  then show "attempts cfg send pause verb req max_retries attempt w = (Inl exc, w1)"
    using assms by (simp add: attempts_other_exception)
next
  assume "send req w = (Inl (RequestException m), w1) \<and> attempt < max_retries"
  then show "attempts cfg send pause verb req max_retries attempt w =
              attempts cfg send pause verb req max_retries (attempt + 1) (pause 1 w1)"
    by (simp add: attempts_transport_failure)
next
  assume "guard cfg rt url = Inr ()"
  then show "get_bytes cfg rt url headers params cookies max_retries w0 =
              attempts cfg (lib_requests_get rt) (lib_sleep rt) ''fetch''
                (get_request cfg url headers params cookies) max_retries 0 w0"
    by (simp add: get_bytes_def)
next
  assume "guard cfg rt url = Inr ()"
  then show "post_bytes cfg rt url headers body cookies max_retries w0 =
              attempts cfg (lib_requests_post rt) (lib_sleep rt) ''POST''
                (post_request cfg url headers body cookies) max_retries 0 w0"
    by (simp add: post_bytes_def)
qed

theorem error_status_returned_without_retry_witness:
  "(0::int) \<le> 3 \<and>
   get_bytes default_settings demo_runtime ''http://example.test/missing'' None None None 3 0 =
     (Inr (fetch_result_of not_found_response), 1) \<and>
   fr_status_code (fetch_result_of not_found_response) = 404"
proof -
  have h: "(0::int) \<le> 3" by simp
  have g: "guard default_settings demo_runtime ''http://example.test/missing'' = Inr ()"
    by (simp add: guard_def default_settings_def demo_runtime_def
          resolve_and_block_private_hosts_def validate_public_http_url_def check_resolved_def
          demo_urlparse_def demo_dns_def demo_ip_address_def collect_ips_def is_private_or_local_def
          PRIVATE_IP_PREFIXES_def startswith_def)
  have r: "not_found_server
             (get_request default_settings ''http://example.test/missing'' None None None) 0 =
           (Inr not_found_response, 1)"
    by (simp add: not_found_server_def)
  have c: "int (length (response_body not_found_response)) \<le> http_max_bytes default_settings"
    by (simp add: response_body_def not_found_response_def default_settings_def)
  note t = error_status_returned_without_retry [OF h, where send = not_found_server
      and req = "get_request default_settings ''http://example.test/missing'' None None None"
      and w = 0 and resp = not_found_response and ?w1.0 = 1 and cfg = default_settings
      and pause = no_pause and verb = "''fetch''" and rt = demo_runtime
      and url = "''http://example.test/missing''" and headers = None and params = None
      and cookies = None and ?w0.0 = 0]
  show ?thesis
    using h g r c t by (simp add: demo_runtime_def not_found_response_def)
qed

section \<open>Properties of the JSON record search\<close>

lemma bfs_loop_foldl:
  "bfs_loop queue visited best = foldl better best (candidates_of (visited_nodes queue visited))"
proof (induction queue visited best rule: bfs_loop.induct)
  case (1 visited best)
  show ?case by (simp add: bfs_loop.simps visited_nodes.simps candidates_of_def)
next
  case (2 node path queue visited best)
  show ?case
  proof (cases "visited < 500")
    case False
    then show ?thesis by (simp add: bfs_loop.simps visited_nodes.simps candidates_of_def)
  next
    case True
    show ?thesis
    proof (cases "is_list_of_records node")
      case c: True
      show ?thesis
        using True c "2.IH"(1)[OF True c]
        by (simp add: bfs_loop.simps(2)[of node path queue visited best]
              visited_nodes.simps(2)[of node path queue visited] candidates_of_def)
    next
      case c: False
      show ?thesis
        using True c "2.IH"(2)[OF True c]
        by (simp add: bfs_loop.simps(2)[of node path queue visited best]
              visited_nodes.simps(2)[of node path queue visited] candidates_of_def)
    qed
  qed
qed

lemma foldl_better_Some:
  "\<exists>b. foldl better (Some b0) cs = Some b \<and>
       ((b = b0 \<and> (\<forall>c \<in> set cs. length (jr_records c) \<le> length (jr_records b0))) \<or>
        (length (jr_records b0) < length (jr_records b) \<and> first_longest cs b))"
proof (induction cs arbitrary: b0)
  case Nil
  show ?case by simp
next
  case (Cons c cs)
  show ?case
  proof (cases "length (jr_records c) > length (jr_records b0)")
    case True
    then have st: "better (Some b0) c = Some c" by (simp add: better_def)
    from Cons.IH[of c] obtain b where f: "foldl better (Some c) cs = Some b"
      and d: "(b = c \<and> (\<forall>x \<in> set cs. length (jr_records x) \<le> length (jr_records c))) \<or>
              (length (jr_records c) < length (jr_records b) \<and> first_longest cs b)"
      by blast
    from d show ?thesis
    proof
      assume a: "b = c \<and> (\<forall>x \<in> set cs. length (jr_records x) \<le> length (jr_records c))"
      then have "first_longest (c # cs) b"
        unfolding first_longest_def
        by (intro exI[of _ "[]"] exI[of _ cs]) simp
      then show ?thesis using st f True a by simp
    next
      assume a: "length (jr_records c) < length (jr_records b) \<and> first_longest cs b"
      then obtain before after where sp: "cs = before @ b # after"
        and l: "\<forall>x \<in> set before. length (jr_records x) < length (jr_records b)"
        and r: "\<forall>x \<in> set after. length (jr_records x) \<le> length (jr_records b)"
        unfolding first_longest_def by blast
      have "first_longest (c # cs) b"
        unfolding first_longest_def
        using sp l r a by (intro exI[of _ "c # before"] exI[of _ after]) simp
      then show ?thesis using st f True a by simp
    qed
  next
    case False
    then have st: "better (Some b0) c = Some b0" by (simp add: better_def)
    from Cons.IH[of b0] obtain b where f: "foldl better (Some b0) cs = Some b"
      and d: "(b = b0 \<and> (\<forall>x \<in> set cs. length (jr_records x) \<le> length (jr_records b0))) \<or>
              (length (jr_records b0) < length (jr_records b) \<and> first_longest cs b)"
      by blast
    from d show ?thesis
    proof
      assume a: "b = b0 \<and> (\<forall>x \<in> set cs. length (jr_records x) \<le> length (jr_records b0))"
      then show ?thesis using st f False by simp
    next
      assume a: "length (jr_records b0) < length (jr_records b) \<and> first_longest cs b"
      then obtain before after where sp: "cs = before @ b # after"
        and l: "\<forall>x \<in> set before. length (jr_records x) < length (jr_records b)"
        and r: "\<forall>x \<in> set after. length (jr_records x) \<le> length (jr_records b)"
        unfolding first_longest_def by blast
      have "first_longest (c # cs) b"
        unfolding first_longest_def
        using sp l r a False by (intro exI[of _ "c # before"] exI[of _ after]) auto
      then show ?thesis using st f a by simp
    qed
  qed
qed

lemma foldl_better_None:
  assumes "cs \<noteq> []"
  shows "\<exists>b. foldl better None cs = Some b \<and> first_longest cs b"
proof -
  from assms obtain c rest where cs: "cs = c # rest"
    by (cases cs) auto
  have st: "better None c = Some c"
    by (simp add: better_def)
  from foldl_better_Some[of c rest] obtain b where f: "foldl better (Some c) rest = Some b"
    and d: "(b = c \<and> (\<forall>x \<in> set rest. length (jr_records x) \<le> length (jr_records c))) \<or>
            (length (jr_records c) < length (jr_records b) \<and> first_longest rest b)"
    by blast
  have "first_longest cs b"
    using d
  proof
    assume "b = c \<and> (\<forall>x \<in> set rest. length (jr_records x) \<le> length (jr_records c))"
    then show ?thesis
      unfolding first_longest_def cs by (intro exI[of _ "[]"] exI[of _ rest]) simp
  next
    assume a: "length (jr_records c) < length (jr_records b) \<and> first_longest rest b"
    then obtain before after where sp: "rest = before @ b # after"
      and l: "\<forall>x \<in> set before. length (jr_records x) < length (jr_records b)"
      and r: "\<forall>x \<in> set after. length (jr_records x) \<le> length (jr_records b)"
      unfolding first_longest_def by blast
    show ?thesis
      unfolding first_longest_def cs using sp l r a
      by (intro exI[of _ "c # before"] exI[of _ after]) simp
  qed
  then show ?thesis
    using f st cs by simp
qed

text \<open>
  C4, as the spec states it: the returned list is at least as long as every array of
  objects reachable when dictionaries are expanded over all keys and arrays over their first
  50 elements. In \<^verbatim>\<open>{"a": [{"b": [{}, {}]}]}\<close> such a traversal reaches the two-element list
  at \<^verbatim>\<open>$.a[0].b\<close>, but the code returns the one-element list at \<^verbatim>\<open>$.a\<close>: a node that is
  itself a list of records is not expanded.
\<close>

theorem nested_longer_list_counterexample:
  "extract_records_from_json nested_payload =
     Some \<lparr>jr_records = [JObj [(''b'', JArr [JObj [], JObj []])]], jr_path = ''$.a''\<rparr>
   \<and> candidates_of (spec_visited_nodes [(nested_payload, ''$'')] 0) =
     [\<lparr>jr_records = [JObj [(''b'', JArr [JObj [], JObj []])]], jr_path = ''$.a''\<rparr>,
      \<lparr>jr_records = [JObj [], JObj []], jr_path = ''$.a[0].b''\<rparr>]"
  by (simp add: extract_records_from_json_def candidates_of_def nested_payload_def
        is_list_of_records_def is_record_def bfs_loop.simps spec_visited_nodes.simps
        children_def better_def elements_def enumerate_eq_zip str_of_nat.simps digit_char_def)

text \<open>
  C4, amended: when the root is not itself a list of records and the search visits at least
  one list of records, the result is the first longest among the lists of records that the
  search visits, where the search visits nodes breadth-first (dictionary values in key
  order, the first 50 elements of an array in index order, at most 500 nodes) and does not
  expand a node that is itself a list of records. So the returned list is at least as long
  as every visited list of records, and strictly longer than every one visited before it.
\<close>

theorem bfs_returns_first_longest_candidate:
  assumes "\<not> is_list_of_records payload"
    and "candidates_of (visited_nodes [(payload, ''$'')] 0) \<noteq> []"
  shows "\<exists>best. extract_records_from_json payload = Some best \<and>
                first_longest (candidates_of (visited_nodes [(payload, ''$'')] 0)) best"
proof -
  from foldl_better_None[OF assms(2)] obtain b where
    f: "foldl better None (candidates_of (visited_nodes [(payload, ''$'')] 0)) = Some b"
    and fl: "first_longest (candidates_of (visited_nodes [(payload, ''$'')] 0)) b"
    by blast
  have loop: "bfs_loop [(payload, ''$'')] 0 None = Some b"
    using f by (simp add: bfs_loop_foldl)
  have scalar: "candidates_of (visited_nodes [(x, ''$'')] 0) = []"
    if "\<not> is_list_of_records x" and "children x ''$'' = []" for x
    using that by (simp add: visited_nodes.simps candidates_of_def)
  have "extract_records_from_json payload = Some b"
  proof (cases payload)
    case (JObj kvs)
    then show ?thesis using assms(1) loop by (simp add: extract_records_from_json_def)
  next
    case (JArr xs)
    then show ?thesis using assms(1) loop by (simp add: extract_records_from_json_def)
  qed (use assms scalar[of payload] in \<open>simp_all add: children_def\<close>)
  then show ?thesis
    using fl by blast
qed

theorem bfs_returns_first_longest_candidate_witness:
  "\<not> is_list_of_records tie_payload \<and>
   candidates_of (visited_nodes [(tie_payload, ''$'')] 0) =
     [\<lparr>jr_records = [JObj [(''id'', JInt 1)], JObj [(''id'', JInt 2)], JObj [(''id'', JInt 3)]],
       jr_path = ''$.first''\<rparr>,
      \<lparr>jr_records = [JObj []], jr_path = ''$.short''\<rparr>,
      \<lparr>jr_records = [JObj [], JObj [], JObj []], jr_path = ''$.x.late''\<rparr>] \<and>
   (\<exists>best. extract_records_from_json tie_payload = Some best \<and>
           first_longest (candidates_of (visited_nodes [(tie_payload, ''$'')] 0)) best) \<and>
   extract_records_from_json tie_payload =
     Some \<lparr>jr_records = [JObj [(''id'', JInt 1)], JObj [(''id'', JInt 2)], JObj [(''id'', JInt 3)]],
           jr_path = ''$.first''\<rparr>"
proof -
  have h1: "\<not> is_list_of_records tie_payload"
    by (simp add: tie_payload_def is_list_of_records_def)
  have cands: "candidates_of (visited_nodes [(tie_payload, ''$'')] 0) =
     [\<lparr>jr_records = [JObj [(''id'', JInt 1)], JObj [(''id'', JInt 2)], JObj [(''id'', JInt 3)]],
       jr_path = ''$.first''\<rparr>,
      \<lparr>jr_records = [JObj []], jr_path = ''$.short''\<rparr>,
      \<lparr>jr_records = [JObj [], JObj [], JObj []], jr_path = ''$.x.late''\<rparr>]"
    by (simp add: candidates_of_def tie_payload_def is_list_of_records_def is_record_def
          visited_nodes.simps children_def elements_def)
  have h2: "candidates_of (visited_nodes [(tie_payload, ''$'')] 0) \<noteq> []"
    using cands by simp
  have ev: "extract_records_from_json tie_payload =
     Some \<lparr>jr_records = [JObj [(''id'', JInt 1)], JObj [(''id'', JInt 2)], JObj [(''id'', JInt 3)]],
           jr_path = ''$.first''\<rparr>"
    by (simp add: extract_records_from_json_def tie_payload_def is_list_of_records_def
          is_record_def bfs_loop.simps children_def better_def elements_def)
  show ?thesis
    using h1 cands ev bfs_returns_first_longest_candidate [OF h1 h2] by blast
qed

section \<open>Properties of the field matcher\<close>

lemma shortest_first_snoc:
  "shortest_first (xs @ [f]) =
     (case shortest_first xs of
        None \<Rightarrow> Some f
      | Some cur \<Rightarrow> if length f < length cur then Some f else Some cur)"
  by (induction xs) (auto split: option.splits)

lemma keep_first_snoc:
  "keep_first (xs @ [x]) = (if x \<in> set xs then keep_first xs else keep_first xs @ [x])"
  by (simp add: keep_first_def)

lemma set_keep_first: "set (keep_first xs) = set xs"
  by (simp add: keep_first_def)

lemma find_append_case:
  "find P (xs @ ys) = (case find P xs of None \<Rightarrow> find P ys | Some x \<Rightarrow> Some x)"
  by (induction xs) auto

lemma find_map_option:
  "find P (map g xs) = map_option g (find (\<lambda>x. P (g x)) xs)"
  by (induction xs) auto

lemma find_snoc_member:
  assumes "x \<in> set xs"
  shows "find P (xs @ [x]) = find P xs"
proof (cases "find P xs")
  case None
  then have "\<not> P x" using assms by (auto simp: find_None_iff)
  then show ?thesis using None by (simp add: find_append_case)
next
  case (Some y)
  then show ?thesis by (simp add: find_append_case)
qed

lemma find_keep_first: "find P (keep_first xs) = find P xs"
proof (induction xs rule: rev_induct)
  case Nil
  show ?case by (simp add: keep_first_def)
next
  case (snoc x xs)
  show ?case
  proof (cases "x \<in> set xs")
    case True
    then show ?thesis using snoc by (simp add: keep_first_snoc find_snoc_member)
  next
    case False
    then show ?thesis using snoc by (simp add: keep_first_snoc find_append_case)
  qed
qed

lemma keys_dict_set:
  "map fst (dict_set d k v) = (if k \<in> set (map fst d) then map fst d else map fst d @ [k])"
  by (induction d k v rule: dict_set.induct) auto

lemma map_of_None_keys: "(map_of d k = None) = (k \<notin> set (map fst d))"
  by (simp add: map_of_eq_None_iff)

lemma keys_add_field:
  "map fst (add_field d f) =
     (if normalize_field_name f \<in> set (map fst d) then map fst d
      else map fst d @ [normalize_field_name f])"
proof (cases "map_of d (normalize_field_name f)")
  case None
  then have "normalize_field_name f \<notin> set (map fst d)"
    by (simp add: map_of_None_keys)
  then show ?thesis
    using None by (simp add: add_field_def Let_def keys_dict_set)
next
  case (Some cur)
  then have "normalize_field_name f \<in> set (map fst d)"
    using map_of_None_keys[of d "normalize_field_name f"] by simp
  then show ?thesis
    using Some by (simp add: add_field_def Let_def keys_dict_set)
qed

lemma map_of_add_field:
  "map_of (add_field d f) n =
     (if normalize_field_name f = n
      then (case map_of d n of
              None \<Rightarrow> Some f
            | Some cur \<Rightarrow> if length f < length cur then Some f else Some cur)
      else map_of d n)"
  by (auto simp: add_field_def Let_def map_of_dict_set split: option.splits)

lemma build_snoc:
  "build_normalized_to_actual (names @ [f]) = add_field (build_normalized_to_actual names) f"
  by (simp add: build_normalized_to_actual_def)

lemma keys_build:
  "map fst (build_normalized_to_actual names) = keep_first (map normalize_field_name names)"
proof (induction names rule: rev_induct)
  case Nil
  show ?case by (simp add: build_normalized_to_actual_def keep_first_def)
next
  case (snoc f names)
  show ?case
    using snoc by (simp add: build_snoc keys_add_field keep_first_snoc set_keep_first)
qed

lemma map_of_build:
  "map_of (build_normalized_to_actual names) n = representative names n"
proof (induction names rule: rev_induct)
  case Nil
  show ?case by (simp add: build_normalized_to_actual_def representative_def)
next
  case (snoc f names)
  show ?case
    using snoc
    by (simp add: build_snoc map_of_add_field representative_def shortest_first_snoc)
qed

lemma find_assoc:
  "find (\<lambda>(n, a). P n) d =
     (case find P (map fst d) of
        None \<Rightarrow> None
      | Some n \<Rightarrow> (case map_of d n of Some a \<Rightarrow> Some (n, a) | None \<Rightarrow> None))"
proof (induction d)
  case Nil
  show ?case by simp
next
  case (Cons kv d)
  obtain k v where kv: "kv = (k, v)" by (cases kv)
  show ?case
  proof (cases "P k")
    case True
    then show ?thesis by (simp add: kv)
  next
    case False
    show ?thesis
    proof (cases "find P (map fst d)")
      case None
      then show ?thesis using False Cons by (simp add: kv)
    next
      case (Some n)
      then have "P n" by (auto simp: find_Some_iff)
      with False have "n \<noteq> k" by auto
      then show ?thesis using False Cons Some by (simp add: kv)
    qed
  qed
qed

lemma find_build:
  "find (\<lambda>(n, a). P n) (build_normalized_to_actual names) =
     (case find (\<lambda>f. P (normalize_field_name f)) names of
        None \<Rightarrow> None
      | Some f \<Rightarrow>
          (case representative names (normalize_field_name f) of
             Some r \<Rightarrow> Some (normalize_field_name f, r)
           | None \<Rightarrow> None))"
  by (simp add: find_assoc keys_build find_keep_first find_map_option map_of_build
           split: option.splits)

lemma match_one_build:
  "match_one (build_normalized_to_actual names) req = expected_match names req"
  by (simp add: match_one_def expected_match_def Let_def map_of_build find_build
           split: option.splits)

lemma shortest_first_None: "(shortest_first xs = None) = (xs = [])"
  by (cases xs) (auto split: option.splits)

lemma shortest_first_least:
  "shortest_first xs = Some r \<Longrightarrow> r \<in> set xs \<and> (\<forall>f \<in> set xs. length r \<le> length f)"
  by (induction xs arbitrary: r) (auto simp: shortest_first_None split: option.splits if_splits)

lemma representative_shortest:
  assumes "representative names n = Some r"
  shows "r \<in> set names \<and> normalize_field_name r = n \<and>
         (\<forall>f \<in> set names. normalize_field_name f = n \<longrightarrow> length r \<le> length f)"
  using shortest_first_least[of "filter (\<lambda>f. normalize_field_name f = n) names" r] assms
  by (auto simp: representative_def)

lemma match_loop_unmatched:
  "snd (match_loop d reqs m u) = u @ filter (\<lambda>q. match_one d q = Unmatched) reqs"
proof (induction reqs arbitrary: m u)
  case Nil
  show ?case by simp
next
  case (Cons req reqs)
  show ?case
    by (cases "match_one d req") (simp_all add: Cons)
qed

lemma match_loop_matched:
  "map_of (fst (match_loop d reqs m u)) r =
     (if r \<in> set reqs
      then (case match_one d r of Matched a \<Rightarrow> Some a | Skipped \<Rightarrow> map_of m r | Unmatched \<Rightarrow> map_of m r)
      else map_of m r)"
proof (induction reqs arbitrary: m u)
  case Nil
  show ?case by simp
next
  case (Cons req reqs)
  show ?case
  proof (cases "match_one d req")
    case Skipped
    show ?thesis
    proof (cases "r = req")
      case True
      then show ?thesis using Skipped Cons[of m u] by simp
    next
      case False
      then show ?thesis using Skipped Cons[of m u] by simp
    qed
  next
    case (Matched a)
    show ?thesis
    proof (cases "r = req")
      case True
      then show ?thesis using Matched Cons[of "dict_set m req a" u] by (simp add: map_of_dict_set split: match_outcome.splits)
    next
      case False
      then show ?thesis using Matched Cons[of "dict_set m req a" u] by (simp add: map_of_dict_set split: match_outcome.splits)
    qed
  next
    case Unmatched
    show ?thesis
    proof (cases "r = req")
      case True
      then show ?thesis using Unmatched Cons[of m "u @ [req]"] by simp
    next
      case False
      then show ?thesis using Unmatched Cons[of m "u @ [req]"] by simp
    qed
  qed
qed

lemma collision_fields: "all_fields_list collision_records = [''A_b'', ''B'', ''ab'']"
  by (simp add: all_fields_list_def collision_records_def)

lemma collision_normalized:
  "normalize_field_name ''A_b'' = ''ab''" "normalize_field_name ''B'' = ''b''"
  "normalize_field_name ''ab'' = ''ab''" "normalize_field_name ''abc'' = ''abc''"
  by (simp_all add: normalize_field_name_def lower_char_def)

lemma collision_map:
  "build_normalized_to_actual [''A_b'', ''B'', ''ab''] = [(''ab'', ''ab''), (''b'', ''B'')]"
  by (simp add: build_normalized_to_actual_def add_field_def collision_normalized Let_def)

lemma collision_match_one: "match_one [(''ab'', ''ab''), (''b'', ''B'')] ''abc'' = Matched ''ab''"
  by (simp add: match_one_def collision_normalized partial_match_def startswith_def Let_def)

lemma collision_result:
  "match_requested_fields collision_records [''abc''] =
     \<lparr>matched_fields = [(''abc'', ''ab'')], unmatched_requested = [],
      all_available_fields = [''A_b'', ''B'', ''ab'']\<rparr>"
proof -
  have ne: "collision_records \<noteq> []"
    by (simp add: collision_records_def)
  show ?thesis
    unfolding match_requested_fields_def Let_def collision_fields collision_map
    using ne by (simp add: collision_match_one)
qed

text \<open>
  C6, as the spec states it: a request with no exact match is given the first available
  field, in alphabetical order of actual field names, whose normalized form contains the
  request's or is contained in it. For the fields \<^verbatim>\<open>A_b\<close>, \<^verbatim>\<open>B\<close>, \<^verbatim>\<open>ab\<close> and the request
  \<^verbatim>\<open>abc\<close> the code answers \<^verbatim>\<open>ab\<close>. The first such field in alphabetical order is \<^verbatim>\<open>A_b\<close>
  among all the fields, and \<^verbatim>\<open>B\<close> among the two fields that the normalized-to-actual map
  retains (\<^verbatim>\<open>ab\<close> and \<^verbatim>\<open>B\<close>): the map is iterated in the order in which the normalized forms
  were first inserted, and \<^verbatim>\<open>ab\<close> has taken the place of \<^verbatim>\<open>A_b\<close>.
\<close>

theorem partial_match_representative_counterexample:
  "match_requested_fields collision_records [''abc''] =
     \<lparr>matched_fields = [(''abc'', ''ab'')], unmatched_requested = [],
      all_available_fields = [''A_b'', ''B'', ''ab'']\<rparr>
   \<and> spec_first_containing [''A_b'', ''B'', ''ab''] ''abc'' = Some ''A_b''
   \<and> spec_first_containing [''B'', ''ab''] ''abc'' = Some ''B''"
  by (simp add: collision_result spec_first_containing_def collision_normalized partial_match_def
        startswith_def)

text \<open>
  C6, amended: for every non-empty record set and every requested field, the matcher skips
  the request when its normalized form is empty; otherwise, if some field has the same
  normalized form, it matches the request to the representative of that form (the shortest
  field name with that form, the alphabetically first of them when several are equally
  short); otherwise it takes the first field, in alphabetical order of actual field names,
  whose normalized form contains the request's or is contained in it, and matches the
  request to the representative of that field's normalized form; otherwise the request is
  recorded as unmatched.
\<close>

theorem field_match_outcome:
  assumes "records \<noteq> []" and "req \<in> set requested_fields"
  shows "map_of (matched_fields (match_requested_fields records requested_fields)) req =
           (case expected_match (all_fields_list records) req of
              Matched actual \<Rightarrow> Some actual
            | Skipped \<Rightarrow> None
            | Unmatched \<Rightarrow> None)
         \<and> (req \<in> set (unmatched_requested (match_requested_fields records requested_fields))
              \<longleftrightarrow> expected_match (all_fields_list records) req = Unmatched)
         \<and> all_available_fields (match_requested_fields records requested_fields) =
             all_fields_list records
         \<and> sorted (all_fields_list records) \<and> distinct (all_fields_list records)"
proof -
  let ?d = "build_normalized_to_actual (all_fields_list records)"
  have res: "match_requested_fields records requested_fields =
          \<lparr>matched_fields = fst (match_loop ?d requested_fields [] []),
           unmatched_requested = snd (match_loop ?d requested_fields [] []),
           all_available_fields = all_fields_list records\<rparr>"
    using assms(1) by (simp add: match_requested_fields_def Let_def split_def)
  have m: "map_of (fst (match_loop ?d requested_fields [] [])) req =
             (case expected_match (all_fields_list records) req of
                Matched actual \<Rightarrow> Some actual
              | Skipped \<Rightarrow> None
              | Unmatched \<Rightarrow> None)"
    using assms(2) by (simp add: match_loop_matched match_one_build split: match_outcome.splits)
  have u: "(req \<in> set (snd (match_loop ?d requested_fields [] [])))
             = (expected_match (all_fields_list records) req = Unmatched)"
    using assms(2) by (simp add: match_loop_unmatched match_one_build)
  have s: "sorted (all_fields_list records)" "distinct (all_fields_list records)"
    by (simp_all add: all_fields_list_def)
  show ?thesis
    using m u s by (simp add: res)
qed

theorem field_match_outcome_witness:
  "collision_records \<noteq> [] \<and> ''abc'' \<in> set [''abc''] \<and>
   expected_match (all_fields_list collision_records) ''abc'' = Matched ''ab'' \<and>
   map_of (matched_fields (match_requested_fields collision_records [''abc''])) ''abc'' = Some ''ab''"
proof -
  have h1: "collision_records \<noteq> []"
    by (simp add: collision_records_def)
  have h2: "''abc'' \<in> set [''abc'']"
    by simp
  have e: "expected_match (all_fields_list collision_records) ''abc'' = Matched ''ab''"
    using match_one_build[of "[''A_b'', ''B'', ''ab'']" "''abc''"]
    by (simp add: collision_fields collision_map collision_match_one)
  show ?thesis
    using h1 h2 e field_match_outcome [OF h1 h2] by simp
qed

section \<open>Properties of the HTML record extraction\<close>

lemma demo_bs4_parse: "bs_parse demo_bs4 html = Inr html"
  by (simp add: demo_bs4_def)

lemma demo_bs4_select: "bs_select demo_bs4 doc sel = demo_select doc sel"
  by (simp add: demo_bs4_def)


subsection \<open>The positional index of a record with one real field\<close>

lemma card_derived_record:
  "derived_record demo_bs4 0 card_element = [(''_index'', JInt 1), (''title'', JStr ''Hello'')]"
  by (simp add: derived_record_def full_text_fallback_def data_attributes_def classed_children_def
      own_attributes_def demo_bs4_def card_element_def classes_of_def class_field_def
      extract_class_suffix_def clean_key_def py_strip_def strip_where_def is_space_def lower_char_def
      is_lower_alnum_def startswith_def get_element_text_def dict_has_def has_content_fields_def
      meta_keys_def data_attribute_def value_truthy_def Let_def)

text \<open>
  C7: in selector extraction, a matched element whose derived record contains at least one
  real field (a field outside \<^verbatim>\<open>_index\<close>, \<^verbatim>\<open>link\<close>, \<^verbatim>\<open>src\<close>, \<^verbatim>\<open>alt\<close>) is emitted without the
  positional index key. The code removes the key only from a record of more than two
  entries (\<^verbatim>\<open>if len(record) > 2\<close>, under the comment ``Remove \<^verbatim>\<open>_index\<close> if we have other
  fields''): on the document \<^verbatim>\<open><div class=card><span class=title>Hello</span></div>\<close> with
  the selector \<^verbatim>\<open>.card\<close>, the derived record has the real field \<^verbatim>\<open>title\<close>, and the record
  emitted still carries \<^verbatim>\<open>_index\<close>.
\<close>

theorem single_real_field_keeps_index:
  "has_content_fields (derived_record demo_bs4 0 card_element)
   \<and> extract_records_with_selector demo_bs4 card_html ''.card'' =
       Inr [[(''_index'', JInt 1), (''title'', JStr ''Hello'')]]"
  unfolding extract_records_with_selector_def
  by (simp add: demo_bs4_parse demo_bs4_select demo_select_def enumerate_simps element_step_def
       remove_index_def appended_def card_derived_record has_content_fields_def meta_keys_def)

subsection \<open>Nothing to extract\<close>





lemma select_error_propagates:
  assumes "bs_parse lib html = Inr soup"
    and "py_strip sel \<noteq> []"
    and "bs_select lib soup (py_strip sel) = Inl exc"
  shows "extract_records_from_html lib html (Some sel) = Inl exc"
proof -
  have "sel \<noteq> []"
    using assms(2) by (auto simp: py_strip_def strip_where_def)
  then show ?thesis
    using assms by (simp add: extract_records_from_html_def extract_records_with_selector_def)
qed



end
